theory Spec2Isabelle
  imports Main "HOL-Library.Sublist"
begin

section \<open>The syntax tree the validator walks\<close>

text \<open>
  \<^verbatim>\<open>scripts/validate_fastmcp.py\<close> parses one Python file with \<^verbatim>\<open>ast.parse\<close> and runs seven
  checks over the tree. The tree is modelled by the node kinds below: the kinds the
  checks match on (\<^verbatim>\<open>ImportFrom\<close>, \<^verbatim>\<open>Assign\<close>, \<^verbatim>\<open>FunctionDef\<close>, \<^verbatim>\<open>AsyncFunctionDef\<close>,
  \<^verbatim>\<open>If\<close>, \<^verbatim>\<open>Call\<close>, \<^verbatim>\<open>Name\<close>, \<^verbatim>\<open>Attribute\<close>, \<^verbatim>\<open>Compare\<close>, \<^verbatim>\<open>Await\<close>, \<^verbatim>\<open>Constant\<close>) and
  enough further kinds to nest them (\<^verbatim>\<open>ClassDef\<close>, \<^verbatim>\<open>While\<close>, \<^verbatim>\<open>Return\<close>, \<^verbatim>\<open>Expr\<close>,
  \<^verbatim>\<open>Import\<close>, \<^verbatim>\<open>Pass\<close>, \<^verbatim>\<open>Subscript\<close>). Fields keep the names and the order of Python's
  \<^verbatim>\<open>ast\<close> classes; fields that no check reads and that hold no child node
  (\<^verbatim>\<open>type_comment\<close>, \<^verbatim>\<open>level\<close>, \<^verbatim>\<open>ctx\<close>, column offsets) are left out.
\<close>

datatype const_value = StrC string | IntC int | BoolC bool | NoneC

datatype cmpop = Eq | NotEq | Lt | LtE | Gt | GtE | Is | IsNot | In | NotIn

datatype expr =
    Name string
  | Attribute expr string
  | Call expr "expr list" "expr list"
  | Subscript expr expr
  | Compare expr "cmpop list" "expr list"
  | Constant const_value
  | Await expr

text \<open>
  \<open>Name id\<close>, \<open>Attribute value attr\<close>, \<open>Call func args keywords\<close> (the keyword
  arguments by their values: no check reads a keyword's name), \<open>Subscript value slice\<close>,
  \<open>Compare left ops comparators\<close>, \<open>Constant value\<close>, \<open>Await value\<close>.
\<close>

record arg =
  arg_name :: string
  annotation :: "expr option"

record arguments =
  posonlyargs :: "arg list"
  args :: "arg list"
  vararg :: "arg option"
  kwonlyargs :: "arg list"
  kw_defaults :: "expr option list"
  kwarg :: "arg option"
  defaults :: "expr list"

record import_alias =
  alias_name :: string
  asname :: "string option"

datatype stmt =
    FunctionDef string arguments "stmt list" "expr list" "expr option" int
  | AsyncFunctionDef string arguments "stmt list" "expr list" "expr option" int
  | ClassDef string "expr list" "expr list" "stmt list" "expr list"
  | Return "expr option"
  | Assign "expr list" expr int
  | Expr expr
  | If_stmt expr "stmt list" "stmt list"
  | While expr "stmt list" "stmt list"
  | Import "import_alias list"
  | ImportFrom "string option" "import_alias list" int
  | Pass

text \<open>
  \<open>FunctionDef name args body decorator_list returns lineno\<close> and the same fields for
  \<open>AsyncFunctionDef\<close>: Python's \<^verbatim>\<open>ast.FunctionDef\<close> and \<^verbatim>\<open>ast.AsyncFunctionDef\<close> are two
  classes, neither a subclass of the other. \<open>ClassDef name bases keywords body
  decorator_list\<close>, \<open>Assign targets value lineno\<close>, \<open>If_stmt test body orelse\<close>,
  \<open>While test body orelse\<close>, \<open>ImportFrom module names lineno\<close>.
\<close>

datatype node = ModuleN "stmt list" | StmtN stmt | ExprN expr

subsection \<open>\<^verbatim>\<open>ast.walk\<close>: breadth-first, children in field order\<close>

text \<open>
  \<^verbatim>\<open>ast.walk(node)\<close> keeps a queue: it pops the first node, appends that node's children
  (\<^verbatim>\<open>ast.iter_child_nodes\<close>, in field order) at the end, and yields the node. The model
  lists statement and expression nodes. The helper nodes of Python's tree (\<^verbatim>\<open>arguments\<close>,
  \<^verbatim>\<open>arg\<close>, \<^verbatim>\<open>keyword\<close>, \<^verbatim>\<open>alias\<close>, operators) match no \<^verbatim>\<open>isinstance\<close> test of the
  validator; their expression children stand in their place. Statements only occur
  below statements, so the statements come out in exactly Python's order.
\<close>

definition opt_list :: "'a option \<Rightarrow> 'a list" where
  "opt_list x = (case x of None \<Rightarrow> [] | Some y \<Rightarrow> [y])"

definition arg_children :: "arg \<Rightarrow> expr list" where
  "arg_children a = opt_list (annotation a)"

definition arguments_children :: "arguments \<Rightarrow> expr list" where
  "arguments_children a =
     concat (map arg_children (posonlyargs a)) @
     concat (map arg_children (args a)) @
     concat (map arg_children (opt_list (vararg a))) @
     concat (map arg_children (kwonlyargs a)) @
     concat (map opt_list (kw_defaults a)) @
     concat (map arg_children (opt_list (kwarg a))) @
     defaults a"

fun iter_child_nodes :: "node \<Rightarrow> node list" where
  "iter_child_nodes (ModuleN body) = map StmtN body"
| "iter_child_nodes (ExprN (Name i)) = []"
| "iter_child_nodes (ExprN (Attribute v a)) = [ExprN v]"
| "iter_child_nodes (ExprN (Call f as ks)) = ExprN f # map ExprN as @ map ExprN ks"
| "iter_child_nodes (ExprN (Subscript v s)) = [ExprN v, ExprN s]"
| "iter_child_nodes (ExprN (Compare l ops cs)) = ExprN l # map ExprN cs"
| "iter_child_nodes (ExprN (Constant c)) = []"
| "iter_child_nodes (ExprN (Await v)) = [ExprN v]"
| "iter_child_nodes (StmtN (FunctionDef nm a body decs ret ln)) =
     map ExprN (arguments_children a) @ map StmtN body @ map ExprN decs @ map ExprN (opt_list ret)"
| "iter_child_nodes (StmtN (AsyncFunctionDef nm a body decs ret ln)) =
     map ExprN (arguments_children a) @ map StmtN body @ map ExprN decs @ map ExprN (opt_list ret)"
| "iter_child_nodes (StmtN (ClassDef nm bases ks body decs)) =
     map ExprN bases @ map ExprN ks @ map StmtN body @ map ExprN decs"
| "iter_child_nodes (StmtN (Return r)) = map ExprN (opt_list r)"
| "iter_child_nodes (StmtN (Assign targets v ln)) = map ExprN targets @ [ExprN v]"
| "iter_child_nodes (StmtN (Expr v)) = [ExprN v]"
| "iter_child_nodes (StmtN (If_stmt t body orelse)) = ExprN t # map StmtN body @ map StmtN orelse"
| "iter_child_nodes (StmtN (While t body orelse)) = ExprN t # map StmtN body @ map StmtN orelse"
| "iter_child_nodes (StmtN (Import names)) = []"
| "iter_child_nodes (StmtN (ImportFrom m names ln)) = []"
| "iter_child_nodes (StmtN Pass) = []"

text \<open>The number of nodes below and including a node: the measure of the walk.\<close>

fun expr_size :: "expr \<Rightarrow> nat" where
  "expr_size (Name i) = 1"
| "expr_size (Attribute v a) = Suc (expr_size v)"
| "expr_size (Call f as ks) = Suc (expr_size f + sum_list (map expr_size as) + sum_list (map expr_size ks))"
| "expr_size (Subscript v s) = Suc (expr_size v + expr_size s)"
| "expr_size (Compare l ops cs) = Suc (expr_size l + sum_list (map expr_size cs))"
| "expr_size (Constant c) = 1"
| "expr_size (Await v) = Suc (expr_size v)"

definition exprs_size :: "expr list \<Rightarrow> nat" where
  "exprs_size es = sum_list (map expr_size es)"

fun stmt_size :: "stmt \<Rightarrow> nat" where
  "stmt_size (FunctionDef nm a body decs ret ln) =
     Suc (exprs_size (arguments_children a) + sum_list (map stmt_size body) + exprs_size decs
          + exprs_size (opt_list ret))"
| "stmt_size (AsyncFunctionDef nm a body decs ret ln) =
     Suc (exprs_size (arguments_children a) + sum_list (map stmt_size body) + exprs_size decs
          + exprs_size (opt_list ret))"
| "stmt_size (ClassDef nm bases ks body decs) =
     Suc (exprs_size bases + exprs_size ks + sum_list (map stmt_size body) + exprs_size decs)"
| "stmt_size (Return r) = Suc (exprs_size (opt_list r))"
| "stmt_size (Assign targets v ln) = Suc (exprs_size targets + expr_size v)"
| "stmt_size (Expr v) = Suc (expr_size v)"
| "stmt_size (If_stmt t body orelse) =
     Suc (expr_size t + sum_list (map stmt_size body) + sum_list (map stmt_size orelse))"
| "stmt_size (While t body orelse) =
     Suc (expr_size t + sum_list (map stmt_size body) + sum_list (map stmt_size orelse))"
| "stmt_size (Import names) = 1"
| "stmt_size (ImportFrom m names ln) = 1"
| "stmt_size Pass = 1"

fun node_size :: "node \<Rightarrow> nat" where
  "node_size (ModuleN body) = Suc (sum_list (map stmt_size body))"
| "node_size (StmtN s) = stmt_size s"
| "node_size (ExprN e) = expr_size e"

definition queue_size :: "node list \<Rightarrow> nat" where
  "queue_size todo = sum_list (map node_size todo)"

lemma queue_size_append: "queue_size (xs @ ys) = queue_size xs + queue_size ys"
  by (simp add: queue_size_def)

lemma queue_size_ExprN: "queue_size (map ExprN es) = exprs_size es"
  by (simp add: queue_size_def exprs_size_def comp_def)

lemma queue_size_StmtN: "queue_size (map StmtN ss) = sum_list (map stmt_size ss)"
  by (simp add: queue_size_def comp_def)

lemma queue_size_Cons: "queue_size (n # todo) = node_size n + queue_size todo"
  by (simp add: queue_size_def)

lemma children_smaller: "queue_size (iter_child_nodes n) < node_size n"
proof (cases n)
  case (ModuleN body)
  then show ?thesis by (simp add: queue_size_StmtN)
next
  case (StmtN s)
  then show ?thesis
    by (cases s)
       (simp_all add: queue_size_append queue_size_ExprN queue_size_StmtN queue_size_Cons
          queue_size_def[of "[]"] exprs_size_def[of "[_]"])
next
  case (ExprN e)
  then show ?thesis
    by (cases e)
       (simp_all add: queue_size_append queue_size_ExprN queue_size_Cons exprs_size_def
          queue_size_def[of "[]"])
qed

function walk_queue :: "node list \<Rightarrow> node list" where
  "walk_queue [] = []"
| "walk_queue (n # todo) = n # walk_queue (todo @ iter_child_nodes n)"
  by pat_completeness auto
termination
proof (relation "measure queue_size")
  show "wf (measure queue_size)" by simp
next
  fix n todo
  show "(todo @ iter_child_nodes n, n # todo) \<in> measure queue_size"
    using children_smaller [of n] by (simp add: queue_size_append queue_size_Cons)
qed

definition walk :: "node \<Rightarrow> node list" where
  "walk n = walk_queue [n]"

section \<open>Findings and the validator's state\<close>

text \<open>
  \<^verbatim>\<open>class ValidationIssue(NamedTuple)\<close>: the severity is one of the strings
  \<^verbatim>\<open>"error"\<close>, \<^verbatim>\<open>"warning"\<close>, \<^verbatim>\<open>"info"\<close>; the line is \<^verbatim>\<open>int | None\<close>.
\<close>

record ValidationIssue =
  severity :: string
  line :: "int option"
  message :: string
  suggestion :: "string option"

text \<open>
  \<^verbatim>\<open>class FastMCPValidator\<close>: the fields that \<^verbatim>\<open>__init__\<close> sets. The tree is the body of
  the \<^verbatim>\<open>ast.Module\<close>, once parsed.
\<close>

record FastMCPValidator =
  filepath :: string
  strict :: bool
  issues :: "ValidationIssue list"
  tree :: "stmt list option"

definition FastMCPValidator_init :: "string \<Rightarrow> bool \<Rightarrow> FastMCPValidator" where
  "FastMCPValidator_init path strict_flag =
     \<lparr>filepath = path, strict = strict_flag, issues = [], tree = None\<rparr>"

definition add_error :: "FastMCPValidator \<Rightarrow> int option \<Rightarrow> string \<Rightarrow> string option \<Rightarrow> FastMCPValidator" where
  "add_error v ln msg sugg =
     v\<lparr>issues := issues v @ [\<lparr>severity = ''error'', line = ln, message = msg, suggestion = sugg\<rparr>]\<rparr>"

definition add_warning :: "FastMCPValidator \<Rightarrow> int option \<Rightarrow> string \<Rightarrow> string option \<Rightarrow> FastMCPValidator" where
  "add_warning v ln msg sugg =
     v\<lparr>issues := issues v @ [\<lparr>severity = ''warning'', line = ln, message = msg, suggestion = sugg\<rparr>]\<rparr>"

definition add_info :: "FastMCPValidator \<Rightarrow> int option \<Rightarrow> string \<Rightarrow> string option \<Rightarrow> FastMCPValidator" where
  "add_info v ln msg sugg =
     (if strict v
      then v\<lparr>issues := issues v @ [\<lparr>severity = ''info'', line = ln, message = msg, suggestion = sugg\<rparr>]\<rparr>
      else v)"

section \<open>What the interpreter and the library contribute\<close>

text \<open>
  The checks call two library functions whose text is not part of the repository:
  \<^verbatim>\<open>ast.unparse\<close> (renders an expression as source text) and \<^verbatim>\<open>inspect.cleandoc\<close> (inside
  \<^verbatim>\<open>ast.get_docstring\<close>). They are parameters of the model, so every theorem holds for
  whatever they return. The third parameter is the interpreter's recursion budget:
  \<open>depth_limit\<close> is the number of nested calls of \<^verbatim>\<open>get_decorator_name\<close> that still fit
  under \<^verbatim>\<open>sys.getrecursionlimit()\<close> (1000 by default, less the frames in use) when the
  comprehension of a check calls it.

  Two functions nest deeply enough to exhaust the budget: \<^verbatim>\<open>get_decorator_name\<close>, which
  is recursive, and \<^verbatim>\<open>ast.unparse\<close>, a recursive visitor. \<open>unparse py k e\<close> is the result
  of \<^verbatim>\<open>ast.unparse(e)\<close> called where \<open>k\<close> further frames fit: the text, or \<open>None\<close> when
  the call raises \<^verbatim>\<open>RecursionError\<close>. The frames available at the three places that call
  it follow from the frames in use there (a comprehension has a frame of its own, as in
  CPython 3.10 and 3.11): inside \<^verbatim>\<open>get_decorator_name\<close> entered with budget \<open>k\<close>, one
  less than \<open>k\<close>; inside \<^verbatim>\<open>check_prompt_function\<close>, \<open>depth_limit\<close>; inside
  \<^verbatim>\<open>check_context_usage\<close>, one more than \<open>depth_limit\<close>. Every other call of the checks
  nests a handful of frames and is taken to fit.
\<close>

record runtime =
  unparse :: "nat \<Rightarrow> expr \<Rightarrow> string option"
  cleandoc :: "string \<Rightarrow> string"
  depth_limit :: nat

datatype exn = RecursionError | AttributeError | ValueError

text \<open>
  A computation that may raise returns \<open>Inl\<close> the exception. Python statements in
  sequence stop at the first exception: \<open>bind_exn\<close>. A \<^verbatim>\<open>for\<close> loop whose body may raise:
  \<open>for_each\<close>.
\<close>

definition bind_exn :: "exn + 'a \<Rightarrow> ('a \<Rightarrow> exn + 'b) \<Rightarrow> exn + 'b" where
  "bind_exn m f = (case m of Inl e \<Rightarrow> Inl e | Inr x \<Rightarrow> f x)"

fun for_each :: "'a list \<Rightarrow> ('a \<Rightarrow> 's \<Rightarrow> exn + 's) \<Rightarrow> 's \<Rightarrow> exn + 's" where
  "for_each [] body s = Inr s"
| "for_each (x # xs) body s = bind_exn (body x s) (for_each xs body)"

text \<open>Python's \<^verbatim>\<open>needle in haystack\<close> on strings, and \<^verbatim>\<open>str(n)\<close> of a count.\<close>

fun str_contains :: "string \<Rightarrow> string \<Rightarrow> bool" where
  "str_contains needle [] = (needle = [])"
| "str_contains needle (c # cs) = (prefix needle (c # cs) \<or> str_contains needle cs)"

definition digit_char :: "nat \<Rightarrow> char" where
  "digit_char d = char_of (48 + d)"

fun str_nat :: "nat \<Rightarrow> string" where
  "str_nat n = (if n < 10 then [digit_char n] else str_nat (n div 10) @ [digit_char (n mod 10)])"

declare str_nat.simps [simp del]

section \<open>The helpers of the validator\<close>

text \<open>\<^verbatim>\<open>ast.unparse(e)\<close> where \<open>k\<close> further frames fit.\<close>

definition ast_unparse :: "runtime \<Rightarrow> nat \<Rightarrow> expr \<Rightarrow> exn + string" where
  "ast_unparse py k e = (case unparse py k e of None \<Rightarrow> Inl RecursionError | Some t \<Rightarrow> Inr t)"

text \<open>
  \<^verbatim>\<open>get_decorator_name\<close> (lines 330-338). The second argument is the number of calls the
  interpreter still allows; the recursive call on \<^verbatim>\<open>decorator.func\<close> and the call of
  \<^verbatim>\<open>ast.unparse\<close> on \<^verbatim>\<open>decorator.value\<close> have one less.
\<close>

fun get_decorator_name :: "runtime \<Rightarrow> nat \<Rightarrow> expr \<Rightarrow> exn + string" where
  "get_decorator_name py k (Name i) = (if k = 0 then Inl RecursionError else Inr i)"
| "get_decorator_name py k (Attribute v a) =
     (if k = 0 then Inl RecursionError
      else bind_exn (ast_unparse py (k - 1) v) (\<lambda>t. Inr (t @ ''.'' @ a)))"
| "get_decorator_name py k (Call f as ks) =
     (if k = 0 then Inl RecursionError else get_decorator_name py (k - 1) f)"
| "get_decorator_name py k e = (if k = 0 then Inl RecursionError else Inr '''')"

text \<open>
  The comprehension \<^verbatim>\<open>[self.get_decorator_name(d) for d in node.decorator_list]\<close> of lines
  161, 232, 260 and 279.
\<close>

fun decorator_names :: "runtime \<Rightarrow> expr list \<Rightarrow> exn + string list" where
  "decorator_names py [] = Inr []"
| "decorator_names py (d # ds) =
     bind_exn (get_decorator_name py (depth_limit py) d)
       (\<lambda>n. bind_exn (decorator_names py ds) (\<lambda>ns. Inr (n # ns)))"

text \<open>\<^verbatim>\<open>isinstance(node, ast.FunctionDef)\<close> and \<^verbatim>\<open>isinstance(node, ast.AsyncFunctionDef)\<close>.\<close>

fun isinstance_FunctionDef :: "node \<Rightarrow> bool" where
  "isinstance_FunctionDef (StmtN (FunctionDef nm a body decs ret ln)) = True"
| "isinstance_FunctionDef n = False"

fun isinstance_AsyncFunctionDef :: "node \<Rightarrow> bool" where
  "isinstance_AsyncFunctionDef (StmtN (AsyncFunctionDef nm a body decs ret ln)) = True"
| "isinstance_AsyncFunctionDef n = False"

fun isinstance_Await :: "node \<Rightarrow> bool" where
  "isinstance_Await (ExprN (Await v)) = True"
| "isinstance_Await n = False"

text \<open>\<^verbatim>\<open>has_await\<close> (lines 340-345): some node of the walk from \<open>n\<close> is an \<^verbatim>\<open>Await\<close>.\<close>

definition has_await :: "node \<Rightarrow> bool" where
  "has_await n = list_ex isinstance_Await (walk n)"

text \<open>
  \<^verbatim>\<open>ast.get_docstring(node)\<close> on a function's body: the first statement, when it is an
  expression statement holding a string constant, cleaned; \<^verbatim>\<open>None\<close> otherwise.
\<close>

fun get_docstring :: "runtime \<Rightarrow> stmt list \<Rightarrow> string option" where
  "get_docstring py (Expr (Constant (StrC s)) # rest) = Some (cleandoc py s)"
| "get_docstring py body = None"

section \<open>The seven checks\<close>

text \<open>
  Every check is a \<^verbatim>\<open>for node in ast.walk(self.tree)\<close> loop. Its body is the function
  named \<open>..._node\<close>; the loop variables are the state the body passes on.
  \<^verbatim>\<open>ast.walk(None)\<close> raises \<^verbatim>\<open>AttributeError\<close>; \<^verbatim>\<open>validate\<close> sets the tree first.
\<close>

subsection \<open>\<^verbatim>\<open>check_imports\<close> (lines 102-124)\<close>

fun check_imports_node :: "node \<Rightarrow> bool \<times> FastMCPValidator \<Rightarrow> bool \<times> FastMCPValidator" where
  "check_imports_node (StmtN (ImportFrom m names ln)) (has_fastmcp_import, v) =
     (if m = Some ''fastmcp''
      then (True,
            if ''FastMCP'' \<notin> set (map alias_name names)
            then add_warning v (Some ln) ''FastMCP class not imported from fastmcp''
                   (Some ''Add: from fastmcp import FastMCP'')
            else v)
      else (has_fastmcp_import, v))"
| "check_imports_node n st = st"

definition check_imports :: "FastMCPValidator \<Rightarrow> exn + FastMCPValidator" where
  "check_imports v =
     (case tree v of
        None \<Rightarrow> Inl AttributeError
      | Some m \<Rightarrow>
          (let (has_fastmcp_import, v1) = fold check_imports_node (walk (ModuleN m)) (False, v)
           in Inr (if \<not> has_fastmcp_import
                   then add_error v1 None ''Missing FastMCP import''
                          (Some ''Add: from fastmcp import FastMCP'')
                   else v1)))"

subsection \<open>\<^verbatim>\<open>check_server_init\<close> (lines 126-151)\<close>

fun check_server_init_node :: "node \<Rightarrow> bool \<times> FastMCPValidator \<Rightarrow> bool \<times> FastMCPValidator" where
  "check_server_init_node (StmtN (Assign targets (Call (Name i) as ks) ln)) (has_server_init, v) =
     (if i = ''FastMCP''
      then (True,
            if as = []
            then add_error v (Some ln) ''FastMCP initialized without server name''
                   (Some (''Use: mcp = FastMCP('' @ [CHR 0x22] @ ''server-name'' @ [CHR 0x22] @ '')''))
            else v)
      else (has_server_init, v))"
| "check_server_init_node n st = st"

definition check_server_init :: "FastMCPValidator \<Rightarrow> exn + FastMCPValidator" where
  "check_server_init v =
     (case tree v of
        None \<Rightarrow> Inl AttributeError
      | Some m \<Rightarrow>
          (let (has_server_init, v1) = fold check_server_init_node (walk (ModuleN m)) (False, v)
           in Inr (if \<not> has_server_init
                   then add_error v1 None ''No FastMCP server initialization found''
                          (Some (''Add: mcp = FastMCP('' @ [CHR 0x22] @ ''server-name'' @ [CHR 0x22] @ '')''))
                   else v1)))"

subsection \<open>\<^verbatim>\<open>check_decorators\<close> and its three helpers (lines 153-222)\<close>

text \<open>
  The helpers take the fields of the \<^verbatim>\<open>FunctionDef\<close> node they read: name, body,
  decorator list, return annotation, line.
\<close>

definition check_tool_function :: "runtime \<Rightarrow> string \<Rightarrow> stmt list \<Rightarrow> int \<Rightarrow> FastMCPValidator \<Rightarrow> FastMCPValidator" where
  "check_tool_function py nm body ln v =
     (if get_docstring py body = None \<or> get_docstring py body = Some ''''
      then add_warning v (Some ln) (''Tool '' @ [CHR 0x27] @ nm @ [CHR 0x27] @ '' missing docstring'')
             (Some ''Add comprehensive docstring with Args and Returns sections'')
      else v)"

fun check_resource_decorator :: "string \<Rightarrow> int \<Rightarrow> expr \<Rightarrow> FastMCPValidator \<Rightarrow> FastMCPValidator" where
  "check_resource_decorator nm ln (Call (Attribute f a) as ks) v =
     (if a = ''resource'' \<and> as = []
      then add_error v (Some ln) (''Resource '' @ [CHR 0x27] @ nm @ [CHR 0x27] @ '' missing URI'')
             (Some (''Use: @mcp.resource('' @ [CHR 0x22] @ ''resource://path'' @ [CHR 0x22] @ '')''))
      else v)"
| "check_resource_decorator nm ln decorator v = v"

definition check_resource_function :: "string \<Rightarrow> expr list \<Rightarrow> int \<Rightarrow> FastMCPValidator \<Rightarrow> FastMCPValidator" where
  "check_resource_function nm decs ln v = fold (check_resource_decorator nm ln) decs v"

definition check_prompt_function :: "runtime \<Rightarrow> string \<Rightarrow> expr option \<Rightarrow> int \<Rightarrow> FastMCPValidator \<Rightarrow> exn + FastMCPValidator" where
  "check_prompt_function py nm ret ln v =
     (case ret of
        None \<Rightarrow> Inr v
      | Some r \<Rightarrow>
          bind_exn (ast_unparse py (depth_limit py) r) (\<lambda>return_type.
            Inr (if return_type \<notin> set [''str'', ''list[PromptMessage]'']
                 then add_warning v (Some ln)
                        (''Prompt '' @ [CHR 0x27] @ nm @ [CHR 0x27] @ '' has unusual return type: ''
                         @ return_type)
                        (Some ''Prompts typically return str or list[PromptMessage]'')
                 else v)))"

fun check_decorators_node ::
  "runtime \<Rightarrow> node \<Rightarrow> nat \<times> nat \<times> nat \<times> FastMCPValidator \<Rightarrow> exn + nat \<times> nat \<times> nat \<times> FastMCPValidator" where
  "check_decorators_node py (StmtN (FunctionDef nm a body decs ret ln))
       (tool_count, resource_count, prompt_count, v) =
     bind_exn (decorator_names py decs) (\<lambda>decorators.
       let v1 = (if ''mcp.tool'' \<in> set decorators then check_tool_function py nm body ln v else v);
           v2 = (if ''mcp.resource'' \<in> set decorators then check_resource_function nm decs ln v1 else v1)
       in bind_exn (if ''mcp.prompt'' \<in> set decorators then check_prompt_function py nm ret ln v2
                    else Inr v2) (\<lambda>v3.
            Inr (if ''mcp.tool'' \<in> set decorators then tool_count + 1 else tool_count,
                 if ''mcp.resource'' \<in> set decorators then resource_count + 1 else resource_count,
                 if ''mcp.prompt'' \<in> set decorators then prompt_count + 1 else prompt_count,
                 v3)))"
| "check_decorators_node py n st = Inr st"

definition decorators_summary :: "nat \<times> nat \<times> nat \<times> FastMCPValidator \<Rightarrow> FastMCPValidator" where
  "decorators_summary st =
     (case st of (tool_count, resource_count, prompt_count, v) \<Rightarrow>
        if tool_count = 0 \<and> resource_count = 0 \<and> prompt_count = 0
        then add_warning v None ''No tools, resources, or prompts defined''
               (Some ''Add @mcp.tool(), @mcp.resource(), or @mcp.prompt() decorators'')
        else add_info v None
               (''Found: '' @ str_nat tool_count @ '' tools, '' @ str_nat resource_count
                @ '' resources, '' @ str_nat prompt_count @ '' prompts'')
               None)"

definition check_decorators :: "runtime \<Rightarrow> FastMCPValidator \<Rightarrow> exn + FastMCPValidator" where
  "check_decorators py v =
     (case tree v of
        None \<Rightarrow> Inl AttributeError
      | Some m \<Rightarrow>
          bind_exn (for_each (walk (ModuleN m)) (check_decorators_node py) (0, 0, 0, v))
            (\<lambda>st. Inr (decorators_summary st)))"

subsection \<open>\<^verbatim>\<open>check_type_hints\<close> (lines 224-254)\<close>

definition check_param_hint :: "string \<Rightarrow> int \<Rightarrow> arg \<Rightarrow> FastMCPValidator \<Rightarrow> FastMCPValidator" where
  "check_param_hint nm ln ar v =
     (if arg_name ar = ''self'' then v
      else if annotation ar = None
      then add_warning v (Some ln)
             (''Parameter '' @ [CHR 0x27] @ arg_name ar @ [CHR 0x27] @ '' in '' @ [CHR 0x27] @ nm
              @ [CHR 0x27] @ '' missing type hint'')
             (Some (''Add type hint: '' @ arg_name ar @ '': str''))
      else v)"

fun check_type_hints_node :: "runtime \<Rightarrow> node \<Rightarrow> FastMCPValidator \<Rightarrow> exn + FastMCPValidator" where
  "check_type_hints_node py (StmtN (FunctionDef nm a body decs ret ln)) v =
     (if decs = [] then Inr v
      else bind_exn (decorator_names py decs) (\<lambda>decorators.
        if \<not> list_ex (prefix ''mcp.'') decorators then Inr v
        else
          (let v1 = fold (check_param_hint nm ln) (args a) v
           in Inr (if ret = None
                   then add_warning v1 (Some ln)
                          (''Function '' @ [CHR 0x27] @ nm @ [CHR 0x27] @ '' missing return type hint'')
                          (Some ''Add return type hint: -> str'')
                   else v1))))"
| "check_type_hints_node py n v = Inr v"

definition check_type_hints :: "runtime \<Rightarrow> FastMCPValidator \<Rightarrow> exn + FastMCPValidator" where
  "check_type_hints py v =
     (case tree v of
        None \<Rightarrow> Inl AttributeError
      | Some m \<Rightarrow> for_each (walk (ModuleN m)) (check_type_hints_node py) v)"

subsection \<open>\<^verbatim>\<open>check_async_patterns\<close> (lines 256-273)\<close>

text \<open>
  Line 266 tests \<^verbatim>\<open>isinstance(node, ast.AsyncFunctionDef)\<close> on a node that line 259 has
  found to be a \<^verbatim>\<open>FunctionDef\<close>.
\<close>

fun check_async_patterns_node :: "runtime \<Rightarrow> node \<Rightarrow> FastMCPValidator \<Rightarrow> exn + FastMCPValidator" where
  "check_async_patterns_node py (StmtN (FunctionDef nm a body decs ret ln)) v =
     bind_exn (decorator_names py decs) (\<lambda>decorators.
       if \<not> list_ex (prefix ''mcp.'') decorators then Inr v
       else
         (let has_aw = has_await (StmtN (FunctionDef nm a body decs ret ln));
              is_async = isinstance_AsyncFunctionDef (StmtN (FunctionDef nm a body decs ret ln))
          in Inr (if has_aw \<and> \<not> is_async
                  then add_error v (Some ln)
                         (''Function '' @ [CHR 0x27] @ nm @ [CHR 0x27] @ '' uses await but is not async'')
                         (Some (''Change to: async def '' @ nm @ ''(...)''))
                  else v)))"
| "check_async_patterns_node py n v = Inr v"

definition check_async_patterns :: "runtime \<Rightarrow> FastMCPValidator \<Rightarrow> exn + FastMCPValidator" where
  "check_async_patterns py v =
     (case tree v of
        None \<Rightarrow> Inl AttributeError
      | Some m \<Rightarrow> for_each (walk (ModuleN m)) (check_async_patterns_node py) v)"

subsection \<open>\<^verbatim>\<open>check_context_usage\<close> (lines 275-309)\<close>

text \<open>
  The inner loop over \<^verbatim>\<open>node.args.args\<close> sets two flags: \<open>has_context_param\<close> and
  \<open>context_has_type_hint\<close>. It renders the annotation of every parameter named \<^verbatim>\<open>ctx\<close> or
  \<^verbatim>\<open>context\<close>.
\<close>

definition context_param_step :: "runtime \<Rightarrow> arg \<Rightarrow> bool \<times> bool \<Rightarrow> exn + bool \<times> bool" where
  "context_param_step py ar flags =
     (if arg_name ar \<in> set [''ctx'', ''context'']
      then (case annotation ar of
              None \<Rightarrow> Inr (True, snd flags)
            | Some an \<Rightarrow>
                bind_exn (ast_unparse py (depth_limit py + 1) an) (\<lambda>type_hint.
                  Inr (True, if str_contains ''Context'' type_hint then True else snd flags)))
      else Inr flags)"

fun check_context_usage_node :: "runtime \<Rightarrow> node \<Rightarrow> FastMCPValidator \<Rightarrow> exn + FastMCPValidator" where
  "check_context_usage_node py (StmtN (FunctionDef nm a body decs ret ln)) v =
     bind_exn (decorator_names py decs) (\<lambda>decorators.
       if \<not> list_ex (prefix ''mcp.'') decorators then Inr v
       else
         bind_exn (for_each (args a) (context_param_step py) (False, False)) (\<lambda>flags.
           let has_context_param = fst flags;
               context_has_type_hint = snd flags;
               v1 = (if has_context_param \<and> \<not> context_has_type_hint
                     then add_error v (Some ln)
                            (''Context parameter in '' @ [CHR 0x27] @ nm @ [CHR 0x27] @ '' missing type hint'')
                            (Some ''Add type hint: ctx: Context'')
                     else v)
           in Inr (if has_context_param
                      \<and> \<not> isinstance_AsyncFunctionDef (StmtN (FunctionDef nm a body decs ret ln))
                   then add_warning v1 (Some ln)
                          (''Function '' @ [CHR 0x27] @ nm @ [CHR 0x27]
                           @ '' has Context parameter but is not async'')
                          (Some ''Context methods are async - make function async'')
                   else v1)))"
| "check_context_usage_node py n v = Inr v"

definition check_context_usage :: "runtime \<Rightarrow> FastMCPValidator \<Rightarrow> exn + FastMCPValidator" where
  "check_context_usage py v =
     (case tree v of
        None \<Rightarrow> Inl AttributeError
      | Some m \<Rightarrow> for_each (walk (ModuleN m)) (check_context_usage_node py) v)"

subsection \<open>\<^verbatim>\<open>check_best_practices\<close> (lines 311-328)\<close>

fun check_best_practices_node :: "node \<Rightarrow> bool \<Rightarrow> bool" where
  "check_best_practices_node (StmtN (If_stmt (Compare (Name i) ops cs) body orelse)) has_main_block =
     (if i = ''__name__'' then True else has_main_block)"
| "check_best_practices_node n has_main_block = has_main_block"

definition check_best_practices :: "FastMCPValidator \<Rightarrow> exn + FastMCPValidator" where
  "check_best_practices v =
     (case tree v of
        None \<Rightarrow> Inl AttributeError
      | Some m \<Rightarrow>
          (let has_main_block = fold check_best_practices_node (walk (ModuleN m)) False
           in Inr (if \<not> has_main_block
                   then add_info v None
                          (''Missing if __name__ == '' @ [CHR 0x27] @ ''__main__'' @ [CHR 0x27] @ '' block'')
                          (Some (''Add: if __name__ == '' @ [CHR 0x27] @ ''__main__'' @ [CHR 0x27]
                                 @ '': mcp.run()''))
                   else v)))"

section \<open>\<^verbatim>\<open>validate\<close> and \<^verbatim>\<open>main\<close>\<close>

text \<open>
  What the file system and the parser answer (lines 53-71): the file is missing; reading
  it raises an exception with text \<open>e\<close>; \<^verbatim>\<open>ast.parse\<close> raises \<^verbatim>\<open>SyntaxError\<close> with \<^verbatim>\<open>lineno\<close>
  and \<^verbatim>\<open>msg\<close>; \<^verbatim>\<open>ast.parse\<close> raises something else, which line 69 does not catch; or
  \<^verbatim>\<open>ast.parse\<close> returns a module.
\<close>

datatype source =
    FileMissing
  | ReadFails string
  | SyntaxError "int option" string
  | ParseRaises exn
  | Parsed "stmt list"

text \<open>
  The grouping of \<^verbatim>\<open>print_results\<close> (lines 354-356). The rest of \<^verbatim>\<open>print_results\<close> writes to
  standard output and changes nothing.
\<close>

definition errors :: "FastMCPValidator \<Rightarrow> ValidationIssue list" where
  "errors v = filter (\<lambda>i. severity i = ''error'') (issues v)"

definition warnings :: "FastMCPValidator \<Rightarrow> ValidationIssue list" where
  "warnings v = filter (\<lambda>i. severity i = ''warning'') (issues v)"

definition infos :: "FastMCPValidator \<Rightarrow> ValidationIssue list" where
  "infos v = filter (\<lambda>i. severity i = ''info'') (issues v)"

definition run_all_checks :: "runtime \<Rightarrow> FastMCPValidator \<Rightarrow> exn + FastMCPValidator" where
  "run_all_checks py v =
     bind_exn (check_imports v) (\<lambda>v1.
     bind_exn (check_server_init v1) (\<lambda>v2.
     bind_exn (check_decorators py v2) (\<lambda>v3.
     bind_exn (check_type_hints py v3) (\<lambda>v4.
     bind_exn (check_async_patterns py v4) (\<lambda>v5.
     bind_exn (check_context_usage py v5) (\<lambda>v6.
     check_best_practices v6))))))"

definition validate :: "runtime \<Rightarrow> FastMCPValidator \<Rightarrow> source \<Rightarrow> exn + bool \<times> FastMCPValidator" where
  "validate py v src =
     (case src of
        FileMissing \<Rightarrow> Inr (False, add_error v None (''File not found: '' @ filepath v) None)
      | ReadFails e \<Rightarrow> Inr (False, add_error v None (''Failed to read file: '' @ e) None)
      | SyntaxError lineno msg \<Rightarrow>
          Inr (False, add_error v lineno (''Python syntax error: '' @ msg) None)
      | ParseRaises e \<Rightarrow> Inl e
      | Parsed m \<Rightarrow>
          bind_exn (run_all_checks py (v\<lparr>tree := Some m\<rparr>)) (\<lambda>v'.
            let has_errors = list_ex (\<lambda>issue. severity issue = ''error'') (issues v')
            in Inr (\<not> has_errors, v')))"

text \<open>
  \<^verbatim>\<open>main\<close> (lines 417-421): the code it passes to \<^verbatim>\<open>sys.exit\<close>. An exception that leaves
  \<^verbatim>\<open>validate\<close> leaves \<^verbatim>\<open>main\<close> too; the interpreter then prints the traceback and the
  process ends with status 1.
\<close>

definition main :: "runtime \<Rightarrow> string \<Rightarrow> bool \<Rightarrow> source \<Rightarrow> exn + int" where
  "main py file strict_flag src =
     bind_exn (validate py (FastMCPValidator_init file strict_flag) src) (\<lambda>r.
       Inr (if fst r then 0 else 1))"

definition exit_status :: "exn + int \<Rightarrow> int" where
  "exit_status r = (case r of Inl e \<Rightarrow> 1 | Inr code \<Rightarrow> code)"

section \<open>Example inputs\<close>

text \<open>
  A runtime for the examples, after CPython 3.11. \<open>render\<close> gives the text of
  \<^verbatim>\<open>ast.unparse\<close> on names, dotted names and subscripts of them, which is all the examples
  ask it; on other expressions it returns the empty text. \<open>unparse_frames\<close> is the number
  of frames \<^verbatim>\<open>ast.unparse\<close> needs, as measured on CPython 3.11: seven for a name, eight
  for a constant, three more for each enclosing node (six for a keyword argument), and
  one more where the visitor sets parentheses (an \<^verbatim>\<open>await\<close> or a comparison as the value
  of an attribute access, subscript or \<^verbatim>\<open>await\<close> or as the callee of a call; a comparison
  as an operand of a comparison). \<^verbatim>\<open>inspect.cleandoc\<close> leaves the one-line docstrings of
  the examples as they are. The budget is the default limit of 1000 less the five
  frames in use when the comprehension of a check calls \<^verbatim>\<open>get_decorator_name\<close>.
\<close>

fun render :: "expr \<Rightarrow> string" where
  "render (Name i) = i"
| "render (Attribute v a) = render v @ ''.'' @ a"
| "render (Subscript v s) = render v @ ''['' @ render s @ '']''"
| "render e = ''''"

fun parens_as_atom :: "expr \<Rightarrow> nat" where
  "parens_as_atom (Await v) = 1"
| "parens_as_atom (Compare l ops cs) = 1"
| "parens_as_atom e = 0"

fun parens_as_operand :: "expr \<Rightarrow> nat" where
  "parens_as_operand (Compare l ops cs) = 1"
| "parens_as_operand e = 0"

definition list_max :: "nat list \<Rightarrow> nat" where
  "list_max ns = foldr max ns 0"

fun unparse_frames :: "expr \<Rightarrow> nat" where
  "unparse_frames (Name i) = 7"
| "unparse_frames (Constant c) = 8"
| "unparse_frames (Attribute v a) = 3 + (unparse_frames v + parens_as_atom v)"
| "unparse_frames (Call f as ks) =
     3 + max (unparse_frames f + parens_as_atom f)
           (max (list_max (map unparse_frames as)) (list_max (map (\<lambda>k. 3 + unparse_frames k) ks)))"
| "unparse_frames (Subscript v s) =
     3 + max (unparse_frames v + parens_as_atom v) (unparse_frames s)"
| "unparse_frames (Compare l ops cs) =
     3 + max (unparse_frames l + parens_as_operand l)
           (list_max (map (\<lambda>c. unparse_frames c + parens_as_operand c) cs))"
| "unparse_frames (Await v) = 3 + (unparse_frames v + parens_as_atom v)"

definition unparse0 :: "nat \<Rightarrow> expr \<Rightarrow> string option" where
  "unparse0 k e = (if unparse_frames e \<le> k then Some (render e) else None)"

definition py0 :: runtime where
  "py0 = \<lparr>unparse = unparse0, cleandoc = (\<lambda>s. s), depth_limit = 995\<rparr>"

definition positional :: "arg list \<Rightarrow> arguments" where
  "positional as =
     \<lparr>posonlyargs = [], args = as, vararg = None, kwonlyargs = [], kw_defaults = [],
      kwarg = None, defaults = []\<rparr>"

definition typed_arg :: "string \<Rightarrow> string \<Rightarrow> arg" where
  "typed_arg nm ty = \<lparr>arg_name = nm, annotation = Some (Name ty)\<rparr>"

definition untyped_arg :: "string \<Rightarrow> arg" where
  "untyped_arg nm = \<lparr>arg_name = nm, annotation = None\<rparr>"

text \<open>
  The first two lines and the last two of every example:
  \<^verbatim>\<open>from fastmcp import FastMCP\<close> (line 1), \<^verbatim>\<open>mcp = FastMCP("demo")\<close> (line 2),
  \<^verbatim>\<open>if __name__ == "__main__": mcp.run()\<close>; and the decorator \<^verbatim>\<open>@mcp.tool()\<close>.
\<close>

definition import_fastmcp :: stmt where
  "import_fastmcp = ImportFrom (Some ''fastmcp'') [\<lparr>alias_name = ''FastMCP'', asname = None\<rparr>] 1"

definition server_init :: stmt where
  "server_init = Assign [Name ''mcp''] (Call (Name ''FastMCP'') [Constant (StrC ''demo'')] []) 2"

definition main_guard :: stmt where
  "main_guard =
     If_stmt (Compare (Name ''__name__'') [Eq] [Constant (StrC ''__main__'')])
       [Expr (Call (Attribute (Name ''mcp'') ''run'') [] [])] []"

definition mcp_tool :: expr where
  "mcp_tool = Call (Attribute (Name ''mcp'') ''tool'') [] []"

text \<open>
  Scenario B of the specification:
  \<^verbatim>\<open>@mcp.tool()\<close> / \<^verbatim>\<open>async def greet(name: str) -> str:\<close> / \<^verbatim>\<open>"""Greet someone."""\<close> /
  \<^verbatim>\<open>return name\<close>, between the import, the server and the guard.
\<close>

definition scenario_B :: "stmt list" where
  "scenario_B =
     [import_fastmcp, server_init,
      AsyncFunctionDef ''greet'' (positional [typed_arg ''name'' ''str''])
        [Expr (Constant (StrC ''Greet someone.'')), Return (Some (Name ''name''))]
        [mcp_tool] (Some (Name ''str'')) 5,
      main_guard]"

text \<open>
  Scenario C: \<^verbatim>\<open>@mcp.tool()\<close> / \<^verbatim>\<open>def fetch(url: str) -> str:\<close> / \<^verbatim>\<open>"""Fetch a page."""\<close> /
  \<^verbatim>\<open>return await get(url)\<close>.
\<close>

definition fetch_def :: stmt where
  "fetch_def =
     FunctionDef ''fetch'' (positional [typed_arg ''url'' ''str''])
       [Expr (Constant (StrC ''Fetch a page.'')),
        Return (Some (Await (Call (Name ''get'') [Name ''url''] [])))]
       [mcp_tool] (Some (Name ''str'')) 5"

definition scenario_C :: "stmt list" where
  "scenario_C = [import_fastmcp, server_init, fetch_def, main_guard]"

text \<open>
  A synchronous tool without a guard:
  \<^verbatim>\<open>@mcp.tool()\<close> / \<^verbatim>\<open>def greet(name: str) -> str:\<close> / \<^verbatim>\<open>"""Greet someone."""\<close> / \<^verbatim>\<open>return name\<close>.
\<close>

definition greet_def :: "expr list \<Rightarrow> stmt" where
  "greet_def decs =
     FunctionDef ''greet'' (positional [typed_arg ''name'' ''str''])
       [Expr (Constant (StrC ''Greet someone.'')), Return (Some (Name ''name''))]
       decs (Some (Name ''str'')) 5"

definition sync_tool_no_guard :: "stmt list" where
  "sync_tool_no_guard = [import_fastmcp, server_init, greet_def [mcp_tool]]"

text \<open>The same function under the decorator \<^verbatim>\<open>@mcp.tools\<close>.\<close>

definition mcp_tools_module :: "stmt list" where
  "mcp_tools_module =
     [import_fastmcp, server_init, greet_def [Attribute (Name ''mcp'') ''tools''], main_guard]"

text \<open>
  A synchronous tool with two context parameters, one typed and one not:
  \<^verbatim>\<open>@mcp.tool()\<close> / \<^verbatim>\<open>def report(ctx: Context, context) -> str:\<close> / \<^verbatim>\<open>"""Report."""\<close> /
  \<^verbatim>\<open>return ctx\<close>.
\<close>

definition report_def :: stmt where
  "report_def =
     FunctionDef ''report'' (positional [typed_arg ''ctx'' ''Context'', untyped_arg ''context''])
       [Expr (Constant (StrC ''Report.'')), Return (Some (Name ''ctx''))]
       [mcp_tool] (Some (Name ''str'')) 5"

definition two_context_params :: "stmt list" where
  "two_context_params = [import_fastmcp, server_init, report_def, main_guard]"

text \<open>
  The same with the single parameter \<^verbatim>\<open>ctx\<close>, untyped:
  \<^verbatim>\<open>def report(ctx) -> str:\<close>.
\<close>

definition untyped_ctx_def :: stmt where
  "untyped_ctx_def =
     FunctionDef ''report'' (positional [untyped_arg ''ctx''])
       [Expr (Constant (StrC ''Report.'')), Return (Some (Name ''ctx''))]
       [mcp_tool] (Some (Name ''str'')) 5"

definition untyped_ctx_module :: "stmt list" where
  "untyped_ctx_module = [import_fastmcp, server_init, untyped_ctx_def, main_guard]"

text \<open>
  No guard at the top level; inside the tool, a conditional on another value:
  \<^verbatim>\<open>@mcp.tool()\<close> / \<^verbatim>\<open>def greet(name: str) -> str:\<close> / \<^verbatim>\<open>"""Greet someone."""\<close> /
  \<^verbatim>\<open>if __name__ != "plugin":\<close> / \<^verbatim>\<open>return name\<close> / \<^verbatim>\<open>return name\<close>.
\<close>

definition nested_other_guard :: "stmt list" where
  "nested_other_guard =
     [import_fastmcp, server_init,
      FunctionDef ''greet'' (positional [typed_arg ''name'' ''str''])
        [Expr (Constant (StrC ''Greet someone.'')),
         If_stmt (Compare (Name ''__name__'') [NotEq] [Constant (StrC ''plugin'')])
           [Return (Some (Name ''name''))] [],
         Return (Some (Name ''name''))]
        [mcp_tool] (Some (Name ''str'')) 5]"

text \<open>
  A decorator that is a chain of \<open>n\<close> calls, \<^verbatim>\<open>@f()()...()\<close>, on a function that does
  nothing; the file has neither import nor server.
\<close>

fun nested_call :: "nat \<Rightarrow> expr" where
  "nested_call 0 = Name ''f''"
| "nested_call (Suc n) = Call (nested_call n) [] []"


text \<open>
  The same deep decorator in a file that has the import and the server:
  \<^verbatim>\<open>@f()()...()\<close> / \<^verbatim>\<open>def g(): pass\<close> after the first two lines.
\<close>

definition deep_def :: "nat \<Rightarrow> stmt" where
  "deep_def n = FunctionDef ''g'' (positional []) [Pass] [nested_call n] None 4"

definition deep_with_server :: "nat \<Rightarrow> stmt list" where
  "deep_with_server n = [import_fastmcp, server_init, deep_def n]"


text \<open>
  Two more decorators that grow with \<open>n\<close>: a dotted name of \<open>n + 1\<close> identifiers,
  \<^verbatim>\<open>a.a...a\<close>, and \<^verbatim>\<open>mcp.tool\<close> called \<open>n\<close> times, \<^verbatim>\<open>mcp.tool()()...()\<close>.
\<close>

fun dotted_chain :: "nat \<Rightarrow> expr" where
  "dotted_chain 0 = Name ''a''"
| "dotted_chain (Suc n) = Attribute (dotted_chain n) ''a''"

fun mcp_tool_calls :: "nat \<Rightarrow> expr" where
  "mcp_tool_calls 0 = Attribute (Name ''mcp'') ''tool''"
| "mcp_tool_calls (Suc n) = Call (mcp_tool_calls n) [] []"

text \<open>
  An asynchronous tool that every per-function check would object to, were it
  synchronous: no docstring, an untyped \<^verbatim>\<open>ctx\<close>, no return annotation:
  \<^verbatim>\<open>@mcp.tool()\<close> / \<^verbatim>\<open>async def notify(ctx):\<close> / \<^verbatim>\<open>await ctx.info("x")\<close>.
\<close>

definition notify_def :: stmt where
  "notify_def =
     AsyncFunctionDef ''notify'' (positional [untyped_arg ''ctx''])
       [Expr (Await (Call (Attribute (Name ''ctx'') ''info'') [Constant (StrC ''x'')] []))]
       [mcp_tool] None 5"

definition async_only_module :: "stmt list" where
  "async_only_module = [import_fastmcp, server_init, notify_def, main_guard]"

section \<open>Notions used to state the properties\<close>

text \<open>How many calls a decorator wraps around its callee: \<^verbatim>\<open>@f()()\<close> has depth 2.\<close>

fun call_depth :: "expr \<Rightarrow> nat" where
  "call_depth (Call f as ks) = Suc (call_depth f)"
| "call_depth e = 0"

text \<open>
  The category test of lines 163, 167 and 171 on a node: it is a synchronous function
  definition whose decorators resolve, and one of the resolved names is the given one.
\<close>

fun decorated_as :: "runtime \<Rightarrow> string \<Rightarrow> node \<Rightarrow> bool" where
  "decorated_as py category (StmtN (FunctionDef nm a body decs ret ln)) =
     (case decorator_names py decs of Inl e \<Rightarrow> False | Inr decorators \<Rightarrow> category \<in> set decorators)"
| "decorated_as py category n = False"




text \<open>
  What line 317-320 accept: an \<^verbatim>\<open>If\<close> node, anywhere, whose test is a comparison with the
  bare name \<^verbatim>\<open>__name__\<close> on the left.
\<close>

fun name_compare_if :: "node \<Rightarrow> bool" where
  "name_compare_if (StmtN (If_stmt (Compare (Name i) ops cs) body orelse)) = (i = ''__name__'')"
| "name_compare_if n = False"

text \<open>
  The entry-point guard in the specification's words: a top-level conditional that
  compares the module's identity symbol to the literal main-sentinel string.
\<close>

fun spec_guard_stmt :: "stmt \<Rightarrow> bool" where
  "spec_guard_stmt (If_stmt (Compare (Name i) [Eq] [Constant (StrC s)]) body orelse) =
     (i = ''__name__'' \<and> s = ''__main__'')"
| "spec_guard_stmt s = False"

definition spec_entry_point_guard :: "stmt list \<Rightarrow> bool" where
  "spec_entry_point_guard m = list_ex spec_guard_stmt m"


definition context_untyped_issue :: "string \<Rightarrow> int \<Rightarrow> ValidationIssue" where
  "context_untyped_issue nm ln =
     \<lparr>severity = ''error'', line = Some ln,
      message = ''Context parameter in '' @ [CHR 0x27] @ nm @ [CHR 0x27] @ '' missing type hint'',
      suggestion = Some ''Add type hint: ctx: Context''\<rparr>"

definition context_not_async_issue :: "string \<Rightarrow> int \<Rightarrow> ValidationIssue" where
  "context_not_async_issue nm ln =
     \<lparr>severity = ''warning'', line = Some ln,
      message = ''Function '' @ [CHR 0x27] @ nm @ [CHR 0x27] @ '' has Context parameter but is not async'',
      suggestion = Some ''Context methods are async - make function async''\<rparr>"

definition no_handlers_issue :: ValidationIssue where
  "no_handlers_issue =
     \<lparr>severity = ''warning'', line = None,
      message = ''No tools, resources, or prompts defined'',
      suggestion = Some ''Add @mcp.tool(), @mcp.resource(), or @mcp.prompt() decorators''\<rparr>"

definition missing_guard_issue :: ValidationIssue where
  "missing_guard_issue =
     \<lparr>severity = ''info'', line = None,
      message = ''Missing if __name__ == '' @ [CHR 0x27] @ ''__main__'' @ [CHR 0x27] @ '' block'',
      suggestion = Some (''Add: if __name__ == '' @ [CHR 0x27] @ ''__main__'' @ [CHR 0x27]
                         @ '': mcp.run()'')\<rparr>"


definition found_issue :: "nat \<Rightarrow> nat \<Rightarrow> nat \<Rightarrow> ValidationIssue" where
  "found_issue t r p =
     \<lparr>severity = ''info'', line = None,
      message = ''Found: '' @ str_nat t @ '' tools, '' @ str_nat r @ '' resources, '' @ str_nat p
                @ '' prompts'',
      suggestion = None\<rparr>"

section \<open>Notions used in the proofs\<close>

text \<open>
  Findings none of which is informational; the findings a validator of the given
  strictness keeps of a list (\<^verbatim>\<open>add_info\<close> drops the informational ones unless strict).
\<close>

definition noinfo :: "ValidationIssue list \<Rightarrow> bool" where
  "noinfo fs = list_all (\<lambda>i. severity i \<noteq> ''info'') fs"

definition keep :: "bool \<Rightarrow> ValidationIssue list \<Rightarrow> ValidationIssue list" where
  "keep s fs = filter (\<lambda>i. s \<or> severity i \<noteq> ''info'') fs"

text \<open>
  A step that does nothing but append a fixed list of errors and warnings to the
  findings, whatever the state.
\<close>

definition appends :: "(FastMCPValidator \<Rightarrow> FastMCPValidator) \<Rightarrow> bool" where
  "appends f = (\<exists>fs. noinfo fs \<and> (\<forall>v. f v = v\<lparr>issues := issues v @ fs\<rparr>))"

text \<open>
  What a step that may raise does, when that does not depend on the state: it raises
  \<^verbatim>\<open>RecursionError\<close>, or it appends a fixed list of errors and warnings.
\<close>

definition sound_out :: "exn + ValidationIssue list \<Rightarrow> bool" where
  "sound_out r = (case r of Inl e \<Rightarrow> e = RecursionError | Inr fs \<Rightarrow> noinfo fs)"

definition apply_out :: "exn + ValidationIssue list \<Rightarrow> FastMCPValidator \<Rightarrow> exn + FastMCPValidator" where
  "apply_out r v = (case r of Inl e \<Rightarrow> Inl e | Inr fs \<Rightarrow> Inr (v\<lparr>issues := issues v @ fs\<rparr>))"

definition uniform :: "(FastMCPValidator \<Rightarrow> exn + FastMCPValidator) \<Rightarrow> bool" where
  "uniform f = (\<exists>r. sound_out r \<and> (\<forall>v. f v = apply_out r v))"

text \<open>
  A check that, on every validator holding the tree \<open>m\<close>, raises \<^verbatim>\<open>RecursionError\<close>, or
  returns and appends what the validator keeps of a fixed list of findings.
\<close>

definition apply_keep :: "exn + ValidationIssue list \<Rightarrow> FastMCPValidator \<Rightarrow> exn + FastMCPValidator" where
  "apply_keep r v =
     (case r of Inl e \<Rightarrow> Inl e | Inr fs \<Rightarrow> Inr (v\<lparr>issues := issues v @ keep (strict v) fs\<rparr>))"

definition check_outcome ::
  "(FastMCPValidator \<Rightarrow> exn + FastMCPValidator) \<Rightarrow> stmt list \<Rightarrow> exn + ValidationIssue list \<Rightarrow> bool" where
  "check_outcome chk m r =
     ((case r of Inl e \<Rightarrow> e = RecursionError | Inr fs \<Rightarrow> True)
      \<and> (\<forall>v. tree v = Some m \<longrightarrow> chk v = apply_keep r v))"

text \<open>
  The number of nodes of a list that are synchronous function definitions with a
  decorator of exactly the given resolved name; the finding that ends
  \<^verbatim>\<open>check_decorators\<close>.
\<close>

definition handler_count :: "runtime \<Rightarrow> string \<Rightarrow> node list \<Rightarrow> nat" where
  "handler_count py category ns = length (filter (decorated_as py category) ns)"

definition summary_issue :: "nat \<Rightarrow> nat \<Rightarrow> nat \<Rightarrow> ValidationIssue" where
  "summary_issue t r p = (if t = 0 \<and> r = 0 \<and> p = 0 then no_handlers_issue else found_issue t r p)"

text \<open>
  The body of the inventory loop raises, or adds to each count whether the node is in
  the category and appends findings, whatever the counts and the findings so far.
\<close>

definition counted ::
  "runtime \<Rightarrow> node list \<Rightarrow> exn + ValidationIssue list \<Rightarrow>
   nat \<times> nat \<times> nat \<times> FastMCPValidator \<Rightarrow> exn + nat \<times> nat \<times> nat \<times> FastMCPValidator" where
  "counted py ns r st =
     (case r of
        Inl e \<Rightarrow> Inl e
      | Inr fs \<Rightarrow>
          (case st of (tc, rc, pc, v) \<Rightarrow>
             Inr (tc + handler_count py ''mcp.tool'' ns,
                  rc + handler_count py ''mcp.resource'' ns,
                  pc + handler_count py ''mcp.prompt'' ns,
                  v\<lparr>issues := issues v @ fs\<rparr>)))"

text \<open>
  On a parsed file the run raises \<^verbatim>\<open>RecursionError\<close> whatever the validator, or it returns
  what the validator keeps of one list of findings.
\<close>

definition run_result :: "stmt list \<Rightarrow> exn + ValidationIssue list \<Rightarrow> FastMCPValidator \<Rightarrow> exn + bool \<times> FastMCPValidator" where
  "run_result m r v =
     (case r of
        Inl e \<Rightarrow> Inl RecursionError
      | Inr fs \<Rightarrow>
          Inr (length (filter (\<lambda>i. severity i = ''error'') (issues v @ fs)) = 0,
               v\<lparr>tree := Some m, issues := issues v @ keep (strict v) fs\<rparr>))"

text \<open>The nodes that are expressions: their descendants are expressions too.\<close>

fun isinstance_expr :: "node \<Rightarrow> bool" where
  "isinstance_expr (ExprN e) = True"
| "isinstance_expr n = False"

section \<open>Lemmas\<close>

subsection \<open>Sequencing, and findings kept or dropped\<close>

lemma bind_exn_Inl [simp]: "bind_exn (Inl e) f = Inl e"
  by (simp add: bind_exn_def)

lemma bind_exn_Inr [simp]: "bind_exn (Inr x) f = f x"
  by (simp add: bind_exn_def)

lemma noinfo_Nil [simp]: "noinfo []"
  by (simp add: noinfo_def)

lemma noinfo_append [simp]: "noinfo (xs @ ys) = (noinfo xs \<and> noinfo ys)"
  by (simp add: noinfo_def)

lemma keep_noinfo: "noinfo fs \<Longrightarrow> keep s fs = fs"
  by (induction fs) (auto simp: noinfo_def keep_def)

lemma keep_append [simp]: "keep s (xs @ ys) = keep s xs @ keep s ys"
  by (simp add: keep_def)

lemma keep_Nil [simp]: "keep s [] = []"
  by (simp add: keep_def)

lemma keep_single: "keep s [i] = (if s \<or> severity i \<noteq> ''info'' then [i] else [])"
  by (simp add: keep_def)

lemma keep_True [simp]: "keep True fs = fs"
  by (simp add: keep_def)

lemma keep_False: "keep False fs = filter (\<lambda>i. severity i \<noteq> ''info'') fs"
  by (simp add: keep_def)

lemma errors_keep:
  "filter (\<lambda>i. severity i = ''error'') (keep s fs) = filter (\<lambda>i. severity i = ''error'') fs"
  by (induction fs) (auto simp: keep_def)

lemma appends_id: "appends (\<lambda>v. v)"
  unfolding appends_def by (rule exI[of _ "[]"]) simp

lemma appends_add_error: "appends (\<lambda>v. add_error v l m s)"
  unfolding appends_def add_error_def
  by (rule exI[of _ "[\<lparr>severity = ''error'', line = l, message = m, suggestion = s\<rparr>]"])
     (simp add: noinfo_def)

lemma appends_add_warning: "appends (\<lambda>v. add_warning v l m s)"
  unfolding appends_def add_warning_def
  by (rule exI[of _ "[\<lparr>severity = ''warning'', line = l, message = m, suggestion = s\<rparr>]"])
     (simp add: noinfo_def)

lemma appends_comp:
  assumes "appends f" and "appends g"
  shows "appends (\<lambda>v. g (f v))"
proof -
  from assms obtain fs gs where
    f: "noinfo fs" "\<And>v. f v = v\<lparr>issues := issues v @ fs\<rparr>" and
    g: "noinfo gs" "\<And>v. g v = v\<lparr>issues := issues v @ gs\<rparr>"
    unfolding appends_def by blast
  have "\<forall>v. g (f v) = v\<lparr>issues := issues v @ (fs @ gs)\<rparr>"
    by (simp add: f g)
  moreover have "noinfo (fs @ gs)" using f g by simp
  ultimately show ?thesis unfolding appends_def by blast
qed

lemma appends_if: "appends f \<Longrightarrow> appends g \<Longrightarrow> appends (\<lambda>v. if c then f v else g v)"
  by (cases c) simp_all

lemma appends_fold:
  "(\<And>x. x \<in> set xs \<Longrightarrow> appends (h x)) \<Longrightarrow> appends (fold h xs)"
proof (induction xs)
  case Nil
  show ?case using appends_id by (simp add: id_def)
next
  case (Cons x xs)
  have "appends (\<lambda>v. fold h xs (h x v))"
    by (rule appends_comp) (simp_all add: Cons)
  then show ?case by (simp add: comp_def)
qed

lemma appends_check_tool_function: "appends (check_tool_function py nm body ln)"
  unfolding check_tool_function_def
  by (intro appends_if appends_add_warning appends_id)

lemma appends_ext: "(\<And>v. f v = g v) \<Longrightarrow> appends g \<Longrightarrow> appends f"
  by (simp add: appends_def)

lemma appends_same: "(\<And>v. f v = v) \<Longrightarrow> appends f"
  by (rule appends_ext [OF _ appends_id])

lemma appends_check_resource_decorator: "appends (check_resource_decorator nm ln d)"
proof (cases d)
  case (Call f as ks)
  show ?thesis
  proof (cases f)
    case (Attribute x a)
    show ?thesis
      by (rule appends_ext [OF _ appends_if [OF appends_add_error appends_id]])
         (simp add: Call Attribute)
  qed (simp_all add: Call appends_same)
qed (simp_all add: appends_same)

lemma appends_check_resource_function: "appends (check_resource_function nm decs ln)"
  unfolding check_resource_function_def
  by (rule appends_fold) (rule appends_check_resource_decorator)

lemma appends_check_param_hint: "appends (check_param_hint nm ln ar)"
  unfolding check_param_hint_def
  by (intro appends_if appends_add_warning appends_id)

subsection \<open>Steps that may raise\<close>

lemma uniform_ext: "(\<And>v. f v = g v) \<Longrightarrow> uniform g \<Longrightarrow> uniform f"
  by (simp add: uniform_def)

lemma uniform_same: "(\<And>v. f v = Inr v) \<Longrightarrow> uniform f"
  unfolding uniform_def
  by (rule exI[of _ "Inr []"]) (simp add: sound_out_def apply_out_def)

lemma uniform_raise: "(\<And>v. f v = Inl RecursionError) \<Longrightarrow> uniform f"
  unfolding uniform_def
  by (rule exI[of _ "Inl RecursionError"]) (simp add: sound_out_def apply_out_def)

lemma uniform_pure: "(\<And>v. f v = Inr (g v)) \<Longrightarrow> appends g \<Longrightarrow> uniform f"
proof -
  assume f: "\<And>v. f v = Inr (g v)" and "appends g"
  then obtain fs where fs: "noinfo fs" "\<And>v. g v = v\<lparr>issues := issues v @ fs\<rparr>"
    unfolding appends_def by blast
  show ?thesis
    unfolding uniform_def
    by (rule exI[of _ "Inr fs"]) (simp add: sound_out_def apply_out_def f fs)
qed

lemma uniform_bind:
  assumes "uniform f" and "uniform g"
  shows "uniform (\<lambda>v. bind_exn (f v) g)"
proof -
  from assms obtain rf rg where
    f: "sound_out rf" "\<And>v. f v = apply_out rf v" and
    g: "sound_out rg" "\<And>v. g v = apply_out rg v"
    unfolding uniform_def by blast
  show ?thesis
  proof (cases rf)
    case (Inl e)
    then have "\<And>v. bind_exn (f v) g = Inl RecursionError"
      using f by (simp add: apply_out_def sound_out_def)
    then show ?thesis by (rule uniform_raise)
  next
    case fs: (Inr fs)
    show ?thesis
    proof (cases rg)
      case (Inl e)
      then have "\<And>v. bind_exn (f v) g = Inl RecursionError"
        using f g fs by (simp add: apply_out_def sound_out_def)
      then show ?thesis by (rule uniform_raise)
    next
      case (Inr gs)
      have "\<forall>v. bind_exn (f v) g = apply_out (Inr (fs @ gs)) v"
        using f g fs Inr by (simp add: apply_out_def)
      moreover have "sound_out (Inr (fs @ gs))"
        using f g fs Inr by (simp add: sound_out_def)
      ultimately show ?thesis unfolding uniform_def by blast
    qed
  qed
qed

lemma uniform_for_each:
  "(\<And>x. x \<in> set xs \<Longrightarrow> uniform (body x)) \<Longrightarrow> uniform (for_each xs body)"
proof (induction xs)
  case Nil
  show ?case by (rule uniform_same) simp
next
  case (Cons x xs)
  have "uniform (\<lambda>v. bind_exn (body x v) (for_each xs body))"
    by (rule uniform_bind) (simp_all add: Cons)
  then show ?case by (rule uniform_ext [rotated]) simp
qed


lemma uniform_exn:
  assumes "uniform f" and "f v = Inl e"
  shows "e = RecursionError" and "f w = Inl RecursionError"
proof -
  from assms(1) obtain r where r: "sound_out r" "\<And>w. f w = apply_out r w"
    unfolding uniform_def by blast
  show "e = RecursionError"
    using assms(2) r(1) r(2) [of v] by (cases r) (auto simp: apply_out_def sound_out_def)
  show "f w = Inl RecursionError"
    using assms(2) r(1) r(2) [of v] r(2) [of w] by (cases r) (auto simp: apply_out_def sound_out_def)
qed


lemma for_each_raises:
  assumes "x \<in> set xs" and "\<And>s. body x s = Inl e"
    and "\<And>y s e'. body y s = Inl e' \<Longrightarrow> e' = e"
  shows "for_each xs body s = Inl e"
  using assms(1)
proof (induction xs arbitrary: s)
  case Nil
  then show ?case by simp
next
  case (Cons y ys)
  show ?case
  proof (cases "body y s")
    case (Inl e')
    then show ?thesis using assms(3) by simp
  next
    case (Inr s')
    have "x \<noteq> y" using Inr assms(2) by auto
    then show ?thesis using Cons Inr by simp
  qed
qed

lemma for_each_same:
  "(\<And>x s. x \<in> set xs \<Longrightarrow> body x s = Inr s) \<Longrightarrow> for_each xs body s = Inr s"
  by (induction xs) simp_all

subsection \<open>Resolving decorators and rendering annotations\<close>

lemma ast_unparse_exn: "ast_unparse py k e = Inl x \<Longrightarrow> x = RecursionError"
  by (auto simp: ast_unparse_def split: option.splits)

lemma get_decorator_name_exn: "get_decorator_name py k d = Inl x \<Longrightarrow> x = RecursionError"
proof (induction d arbitrary: k)
  case (Attribute v a)
  then show ?case
    by (cases "ast_unparse py (k - 1) v") (auto split: if_splits dest: ast_unparse_exn)
qed (auto split: if_splits)

lemma get_decorator_name_raises:
  "k \<le> call_depth d \<Longrightarrow> get_decorator_name py k d = Inl RecursionError"
  by (induction d arbitrary: k) auto

lemma decorator_names_exn: "decorator_names py decs = Inl x \<Longrightarrow> x = RecursionError"
proof (induction decs arbitrary: x)
  case Nil
  then show ?case by simp
next
  case (Cons d ds)
  show ?case
  proof (cases "get_decorator_name py (depth_limit py) d")
    case (Inl e)
    then show ?thesis using Cons.prems by (simp add: get_decorator_name_exn)
  next
    case (Inr n)
    then show ?thesis
      using Cons by (cases "decorator_names py ds") simp_all
  qed
qed

lemma decorator_names_raises:
  assumes "d \<in> set decs" and "get_decorator_name py (depth_limit py) d = Inl RecursionError"
  shows "decorator_names py decs = Inl RecursionError"
  using assms(1)
proof (induction decs)
  case Nil
  then show ?case by simp
next
  case (Cons x xs)
  show ?case
  proof (cases "get_decorator_name py (depth_limit py) x")
    case (Inl e)
    then show ?thesis by (simp add: get_decorator_name_exn)
  next
    case (Inr n)
    then have "x \<noteq> d" using assms(2) by auto
    then have "decorator_names py xs = Inl RecursionError" using Cons by simp
    then show ?thesis using Inr by simp
  qed
qed

lemma decorator_names_cases:
  obtains "decorator_names py decs = Inl RecursionError"
  | ds where "decorator_names py decs = Inr ds"
  using decorator_names_exn by (cases "decorator_names py decs") auto

lemma uniform_check_prompt_function: "uniform (check_prompt_function py nm ret ln)"
proof (cases ret)
  case None
  then show ?thesis by (intro uniform_same) (simp add: check_prompt_function_def)
next
  case (Some r)
  show ?thesis
  proof (cases "ast_unparse py (depth_limit py) r")
    case (Inl e)
    then have "e = RecursionError" by (rule ast_unparse_exn)
    then show ?thesis
      using Inl Some by (intro uniform_raise) (simp add: check_prompt_function_def)
  next
    case (Inr t)
    show ?thesis
      by (rule uniform_pure [OF _ appends_if [OF appends_add_warning appends_id]])
         (simp add: Some Inr check_prompt_function_def)
  qed
qed

subsection \<open>Loop bodies\<close>

lemma uniform_check_type_hints_node: "uniform (check_type_hints_node py n)"
proof (cases n)
  case (StmtN s)
  show ?thesis
  proof (cases s)
    case (FunctionDef nm a body decs ret ln)
    show ?thesis
    proof (cases rule: decorator_names_cases [of py decs])
      case 1
      show ?thesis
      proof (cases "decs = []")
        case True
        then show ?thesis by (intro uniform_same) (simp add: StmtN FunctionDef)
      next
        case False
        then show ?thesis using 1 by (intro uniform_raise) (simp add: StmtN FunctionDef)
      qed
    next
      case (2 ds)
      show ?thesis
      proof (cases "decs = [] \<or> \<not> list_ex (prefix ''mcp.'') ds")
        case True
        then show ?thesis
          by (intro uniform_same) (auto simp: StmtN FunctionDef 2)
      next
        case False
        show ?thesis
          by (rule uniform_pure [OF _ appends_comp [OF appends_fold [of "args a" "check_param_hint nm ln"]
                  appends_if [OF appends_add_warning appends_id]]])
             (use False in \<open>simp_all add: StmtN FunctionDef 2 Let_def appends_check_param_hint\<close>)
      qed
    qed
  qed (simp_all add: StmtN uniform_same)
qed (simp_all add: uniform_same)

lemma uniform_check_async_patterns_node: "uniform (check_async_patterns_node py n)"
proof (cases n)
  case (StmtN s)
  show ?thesis
  proof (cases s)
    case (FunctionDef nm a body decs ret ln)
    show ?thesis
    proof (cases rule: decorator_names_cases [of py decs])
      case 1
      then show ?thesis by (intro uniform_raise) (simp add: StmtN FunctionDef)
    next
      case (2 ds)
      show ?thesis
      proof (cases "list_ex (prefix ''mcp.'') ds")
        case False
        then show ?thesis
          by (intro uniform_same) (simp add: StmtN FunctionDef 2)
      next
        case True
        show ?thesis
          by (rule uniform_pure [OF _ appends_if [OF appends_add_error appends_id]])
             (use True in \<open>simp add: StmtN FunctionDef 2 Let_def\<close>)
      qed
    qed
  qed (simp_all add: StmtN uniform_same)
qed (simp_all add: uniform_same)

lemma context_param_step_exn: "context_param_step py ar flags = Inl x \<Longrightarrow> x = RecursionError"
  by (auto simp: context_param_step_def bind_exn_def split: if_splits option.splits sum.splits
        dest: ast_unparse_exn)

lemma for_each_context_param_step_exn:
  "for_each xs (context_param_step py) flags = Inl x \<Longrightarrow> x = RecursionError"
proof (induction xs arbitrary: flags)
  case Nil
  then show ?case by simp
next
  case (Cons y ys)
  show ?case
  proof (cases "context_param_step py y flags")
    case (Inl e)
    then show ?thesis using Cons.prems by (simp add: context_param_step_exn)
  next
    case (Inr f)
    then show ?thesis using Cons by simp
  qed
qed


lemma uniform_check_context_usage_node: "uniform (check_context_usage_node py n)"
proof (cases n)
  case (StmtN s)
  show ?thesis
  proof (cases s)
    case (FunctionDef nm a body decs ret ln)
    show ?thesis
    proof (cases rule: decorator_names_cases [of py decs])
      case 1
      then show ?thesis by (intro uniform_raise) (simp add: StmtN FunctionDef)
    next
      case (2 ds)
      show ?thesis
      proof (cases "list_ex (prefix ''mcp.'') ds")
        case False
        then show ?thesis
          by (intro uniform_same) (simp add: StmtN FunctionDef 2)
      next
        case True
        show ?thesis
        proof (cases "for_each (args a) (context_param_step py) (False, False)")
          case (Inl e)
          then have "e = RecursionError" by (rule for_each_context_param_step_exn)
          then show ?thesis
            using Inl True by (intro uniform_raise) (simp add: StmtN FunctionDef 2)
        next
          case (Inr flags)
          show ?thesis
            by (rule uniform_pure [OF _ appends_comp [OF appends_if [OF appends_add_error appends_id]
                   appends_if [OF appends_add_warning appends_id]]])
               (use True in \<open>simp add: StmtN FunctionDef 2 Inr Let_def\<close>)
        qed
      qed
    qed
  qed (simp_all add: StmtN uniform_same)
qed (simp_all add: uniform_same)

subsection \<open>The checks, one by one\<close>

lemma check_outcome_Inr:
  "check_outcome chk m (Inr fs) =
     (\<forall>v. tree v = Some m \<longrightarrow> chk v = Inr (v\<lparr>issues := issues v @ keep (strict v) fs\<rparr>))"
  by (simp add: check_outcome_def apply_keep_def)

lemma check_outcome_Inl:
  "check_outcome chk m (Inl e) = (e = RecursionError \<and> (\<forall>v. tree v = Some m \<longrightarrow> chk v = Inl e))"
  by (simp add: check_outcome_def apply_keep_def)

lemma check_outcome_for_each:
  assumes "\<And>n. uniform (body n)"
    and "\<And>v. chk v = (case tree v of None \<Rightarrow> Inl AttributeError
                        | Some m \<Rightarrow> for_each (walk (ModuleN m)) body v)"
  shows "\<exists>r. check_outcome chk m r"
proof -
  have "uniform (for_each (walk (ModuleN m)) body)"
    by (rule uniform_for_each) (rule assms(1))
  then obtain r where r: "sound_out r" "\<And>v. for_each (walk (ModuleN m)) body v = apply_out r v"
    unfolding uniform_def by blast
  have "check_outcome chk m r"
    using r by (cases r) (simp_all add: check_outcome_def apply_keep_def apply_out_def
        sound_out_def assms(2) keep_noinfo)
  then show ?thesis ..
qed

lemma check_type_hints_outcome: "\<exists>r. check_outcome (check_type_hints py) m r"
  by (rule check_outcome_for_each [of "check_type_hints_node py"])
     (simp_all add: uniform_check_type_hints_node check_type_hints_def)

lemma check_async_patterns_outcome: "\<exists>r. check_outcome (check_async_patterns py) m r"
  by (rule check_outcome_for_each [of "check_async_patterns_node py"])
     (simp_all add: uniform_check_async_patterns_node check_async_patterns_def)

lemma check_context_usage_outcome: "\<exists>r. check_outcome (check_context_usage py) m r"
  by (rule check_outcome_for_each [of "check_context_usage_node py"])
     (simp_all add: uniform_check_context_usage_node check_context_usage_def)

lemma check_imports_node_appends:
  "\<exists>fs h'. noinfo fs \<and> (\<forall>v. check_imports_node n (h, v) = (h', v\<lparr>issues := issues v @ fs\<rparr>))"
proof -
  have same: "(\<And>v. check_imports_node n (h, v) = (h, v)) \<Longrightarrow> ?thesis"
    by (intro exI[of _ "[]"] exI[of _ h]) simp
  show ?thesis
  proof (cases n)
    case (StmtN s)
    show ?thesis
    proof (cases s)
      case (ImportFrom mo names ln)
      define g where "g = (\<lambda>v. if ''FastMCP'' \<notin> set (map alias_name names)
              then add_warning v (Some ln) ''FastMCP class not imported from fastmcp''
                     (Some ''Add: from fastmcp import FastMCP'')
              else v)"
      have "appends g"
        unfolding g_def by (intro appends_if appends_add_warning appends_id)
      then obtain fs where fs: "noinfo fs" "\<And>v. g v = v\<lparr>issues := issues v @ fs\<rparr>"
        unfolding appends_def by blast
      show ?thesis
      proof (cases "mo = Some ''fastmcp''")
        case True
        have "\<And>v. check_imports_node n (h, v) = (True, g v)"
          by (simp add: StmtN ImportFrom True g_def)
        then show ?thesis
          using fs by (intro exI[of _ fs] exI[of _ True]) simp
      next
        case False
        then show ?thesis by (intro same) (simp add: StmtN ImportFrom)
      qed
    qed (rule same, simp add: StmtN)+
  qed (rule same, simp)+
qed

lemma fold_check_imports_node:
  "\<exists>fs h'. noinfo fs \<and>
     (\<forall>v. fold check_imports_node xs (h, v) = (h', v\<lparr>issues := issues v @ fs\<rparr>))"
proof (induction xs arbitrary: h)
  case Nil
  show ?case by (intro exI[of _ "[]"] exI[of _ h]) simp
next
  case (Cons x xs)
  obtain fs1 h1 where 1: "noinfo fs1"
    "\<And>v. check_imports_node x (h, v) = (h1, v\<lparr>issues := issues v @ fs1\<rparr>)"
    using check_imports_node_appends [of x h] by blast
  obtain fs2 h2 where 2: "noinfo fs2"
    "\<And>v. fold check_imports_node xs (h1, v) = (h2, v\<lparr>issues := issues v @ fs2\<rparr>)"
    using Cons [of h1] by blast
  show ?case
    using 1 2 by (intro exI[of _ "fs1 @ fs2"] exI[of _ h2]) simp
qed

lemma check_imports_outcome: "\<exists>fs. check_outcome check_imports m (Inr fs)"
proof -
  obtain fs h where 1: "noinfo fs"
    "\<And>v. fold check_imports_node (walk (ModuleN m)) (False, v) = (h, v\<lparr>issues := issues v @ fs\<rparr>)"
    using fold_check_imports_node [of "walk (ModuleN m)" False] by blast
  define e where "e = \<lparr>severity = ''error'', line = None, message = ''Missing FastMCP import'',
       suggestion = Some ''Add: from fastmcp import FastMCP''\<rparr>"
  have "check_outcome check_imports m (Inr (fs @ (if h then [] else [e])))"
    unfolding check_outcome_Inr
    using 1 by (simp add: check_imports_def add_error_def e_def keep_noinfo keep_single)
  then show ?thesis ..
qed

lemma check_server_init_node_appends:
  "\<exists>fs h'. noinfo fs \<and> (\<forall>v. check_server_init_node n (h, v) = (h', v\<lparr>issues := issues v @ fs\<rparr>))"
proof -
  have same: "(\<And>v. check_server_init_node n (h, v) = (h, v)) \<Longrightarrow> ?thesis"
    by (intro exI[of _ "[]"] exI[of _ h]) simp
  show ?thesis
  proof (cases n)
    case (StmtN s)
    show ?thesis
    proof (cases s)
      case (Assign targets val ln)
      show ?thesis
      proof (cases val)
        case (Call f as ks)
        show ?thesis
        proof (cases f)
          case (Name i)
          define g where "g = (\<lambda>v. if as = []
            then add_error v (Some ln) ''FastMCP initialized without server name''
                   (Some (''Use: mcp = FastMCP('' @ [CHR 0x22] @ ''server-name'' @ [CHR 0x22] @ '')''))
            else v)"
          have "appends g"
            unfolding g_def by (intro appends_if appends_add_error appends_id)
          then obtain fs where fs: "noinfo fs" "\<And>v. g v = v\<lparr>issues := issues v @ fs\<rparr>"
            unfolding appends_def by blast
          show ?thesis
          proof (cases "i = ''FastMCP''")
            case True
            have "\<And>v. check_server_init_node n (h, v) = (True, g v)"
              by (simp add: StmtN Assign Call Name True g_def)
            then show ?thesis
              using fs by (intro exI[of _ fs] exI[of _ True]) simp
          next
            case False
            then show ?thesis by (intro same) (simp add: StmtN Assign Call Name)
          qed
        qed (rule same, simp add: StmtN Assign Call)+
      qed (rule same, simp add: StmtN Assign)+
    qed (rule same, simp add: StmtN)+
  qed (rule same, simp)+
qed

lemma fold_check_server_init_node:
  "\<exists>fs h'. noinfo fs \<and>
     (\<forall>v. fold check_server_init_node xs (h, v) = (h', v\<lparr>issues := issues v @ fs\<rparr>))"
proof (induction xs arbitrary: h)
  case Nil
  show ?case by (intro exI[of _ "[]"] exI[of _ h]) simp
next
  case (Cons x xs)
  obtain fs1 h1 where 1: "noinfo fs1"
    "\<And>v. check_server_init_node x (h, v) = (h1, v\<lparr>issues := issues v @ fs1\<rparr>)"
    using check_server_init_node_appends [of x h] by blast
  obtain fs2 h2 where 2: "noinfo fs2"
    "\<And>v. fold check_server_init_node xs (h1, v) = (h2, v\<lparr>issues := issues v @ fs2\<rparr>)"
    using Cons [of h1] by blast
  show ?case
    using 1 2 by (intro exI[of _ "fs1 @ fs2"] exI[of _ h2]) simp
qed

lemma check_server_init_outcome: "\<exists>fs. check_outcome check_server_init m (Inr fs)"
proof -
  obtain fs h where 1: "noinfo fs"
    "\<And>v. fold check_server_init_node (walk (ModuleN m)) (False, v) = (h, v\<lparr>issues := issues v @ fs\<rparr>)"
    using fold_check_server_init_node [of "walk (ModuleN m)" False] by blast
  define e where "e = \<lparr>severity = ''error'', line = None,
       message = ''No FastMCP server initialization found'',
       suggestion = Some (''Add: mcp = FastMCP('' @ [CHR 0x22] @ ''server-name'' @ [CHR 0x22] @ '')'')\<rparr>"
  have "check_outcome check_server_init m (Inr (fs @ (if h then [] else [e])))"
    unfolding check_outcome_Inr
    using 1 by (simp add: check_server_init_def add_error_def e_def keep_noinfo keep_single)
  then show ?thesis ..
qed

lemma fold_check_best_practices_node:
  "fold check_best_practices_node xs h = (h \<or> list_ex name_compare_if xs)"
proof (induction xs arbitrary: h)
  case Nil
  show ?case by simp
next
  case (Cons x xs)
  have "check_best_practices_node x h = (h \<or> name_compare_if x)"
    by (cases "(x, h)" rule: check_best_practices_node.cases) auto
  then show ?case by (simp add: Cons)
qed

lemma check_best_practices_eq:
  "tree v = Some m \<Longrightarrow>
   check_best_practices v =
     Inr (v\<lparr>issues := issues v @
            keep (strict v) (if list_ex name_compare_if (walk (ModuleN m)) then [] else [missing_guard_issue])\<rparr>)"
  by (simp add: check_best_practices_def fold_check_best_practices_node add_info_def
        missing_guard_issue_def keep_single)

lemma check_best_practices_outcome: "\<exists>fs. check_outcome check_best_practices m (Inr fs)"
  unfolding check_outcome_Inr using check_best_practices_eq by blast

lemma handler_count_Cons:
  "handler_count py c (n # ns) = (if decorated_as py c n then 1 else 0) + handler_count py c ns"
  by (simp add: handler_count_def)

lemma handler_count_Nil [simp]: "handler_count py c [] = 0"
  by (simp add: handler_count_def)

lemma check_decorators_node_counted:
  "\<exists>r. sound_out r \<and> (\<forall>st. check_decorators_node py n st = counted py [n] r st)"
proof -
  have same: "(\<And>st. check_decorators_node py n st = Inr st) \<Longrightarrow> (\<And>c. \<not> decorated_as py c n) \<Longrightarrow> ?thesis"
    by (intro exI[of _ "Inr []"]) (simp add: handler_count_Cons counted_def sound_out_def split: prod.splits)
  show ?thesis
  proof (cases n)
    case (StmtN s)
    show ?thesis
    proof (cases s)
      case (FunctionDef nm a body decs ret ln)
      show ?thesis
      proof (cases rule: decorator_names_cases [of py decs])
        case 1
        have "\<And>st. check_decorators_node py n st = counted py [n] (Inl RecursionError) st"
        proof -
          fix st :: "nat \<times> nat \<times> nat \<times> FastMCPValidator"
          obtain tc rc pc v where st: "st = (tc, rc, pc, v)" by (cases st) auto
          show "check_decorators_node py n st = counted py [n] (Inl RecursionError) st"
            by (simp add: st StmtN FunctionDef 1 counted_def)
        qed
        then show ?thesis by (intro exI[of _ "Inl RecursionError"]) (simp add: sound_out_def)
      next
        case (2 ds)
        define t where "t = (if ''mcp.tool'' \<in> set ds then check_tool_function py nm body ln else (\<lambda>v. v))"
        define r where "r = (if ''mcp.resource'' \<in> set ds then check_resource_function nm decs ln else (\<lambda>v. v))"
        define p where "p = (if ''mcp.prompt'' \<in> set ds then check_prompt_function py nm ret ln else Inr)"
        define g where "g = (\<lambda>v. bind_exn (Inr (r (t v))) p)"
        have "appends t" "appends r"
          by (simp_all add: t_def r_def appends_check_tool_function
                appends_check_resource_function appends_id)
        then have "appends (\<lambda>v. r (t v))" by (intro appends_comp [of t r])
        then have u1: "uniform (\<lambda>v. Inr (r (t v)))"
          by (intro uniform_pure [of _ "\<lambda>v. r (t v)"]) simp_all
        have u2: "uniform p"
          by (simp add: p_def uniform_check_prompt_function uniform_same)
        have "uniform g" unfolding g_def using u1 u2 by (rule uniform_bind)
        then obtain rr where rr: "sound_out rr" "\<And>v. g v = apply_out rr v"
          unfolding uniform_def by blast
        have hc: "\<And>c. handler_count py c [StmtN (FunctionDef nm a body decs ret ln)]
                      = (if c \<in> set ds then 1 else 0)"
          by (simp add: handler_count_def 2)
        have "\<And>st. check_decorators_node py n st = counted py [n] rr st"
        proof -
          fix st :: "nat \<times> nat \<times> nat \<times> FastMCPValidator"
          obtain tc rc pc v where st: "st = (tc, rc, pc, v)" by (cases st) auto
          have "check_decorators_node py n st =
              bind_exn (g v) (\<lambda>v3. Inr (tc + handler_count py ''mcp.tool'' [n],
                 rc + handler_count py ''mcp.resource'' [n],
                 pc + handler_count py ''mcp.prompt'' [n], v3))"
            by (simp add: st StmtN FunctionDef 2 Let_def g_def t_def r_def p_def hc)
          then show "check_decorators_node py n st = counted py [n] rr st"
            by (cases rr) (simp_all add: rr(2) apply_out_def counted_def st)
        qed
        then show ?thesis using rr(1) by blast
      qed
    qed (rule same; simp add: StmtN)+
  qed (rule same; simp)+
qed

lemma for_each_check_decorators_node:
  "\<exists>r. sound_out r \<and> (\<forall>st. for_each ns (check_decorators_node py) st = counted py ns r st)"
proof (induction ns)
  case Nil
  show ?case
    by (intro exI[of _ "Inr []"]) (simp add: counted_def sound_out_def split: prod.splits)
next
  case (Cons n ns)
  obtain r1 where 1: "sound_out r1" "\<And>st. check_decorators_node py n st = counted py [n] r1 st"
    using check_decorators_node_counted [of py n] by blast
  obtain r2 where 2: "sound_out r2"
    "\<And>st. for_each ns (check_decorators_node py) st = counted py ns r2 st"
    using Cons by blast
  show ?case
  proof (cases r1)
    case (Inl e)
    then show ?thesis
      using 1 by (intro exI[of _ "Inl RecursionError"]) (simp add: counted_def sound_out_def)
  next
    case f1: (Inr fs1)
    show ?thesis
    proof (cases r2)
      case (Inl e)
      then show ?thesis
        using 1 2 f1
        by (intro exI[of _ "Inl RecursionError"])
           (simp add: counted_def sound_out_def split: prod.splits)
    next
      case (Inr fs2)
      then show ?thesis
        using 1 2 f1
        by (intro exI[of _ "Inr (fs1 @ fs2)"])
           (simp add: counted_def sound_out_def handler_count_Cons split: prod.splits)
    qed
  qed
qed

lemma check_decorators_node_exn:
  assumes "check_decorators_node py n st = Inl e"
  shows "e = RecursionError"
proof -
  obtain r where r: "sound_out r" "\<And>st. check_decorators_node py n st = counted py [n] r st"
    using check_decorators_node_counted [of py n] by blast
  show ?thesis
    using assms r(1) r(2) [of st]
    by (cases r; cases st) (simp_all add: counted_def sound_out_def)
qed

lemma decorators_summary_eq:
  "decorators_summary (t, r, p, v) = v\<lparr>issues := issues v @ keep (strict v) [summary_issue t r p]\<rparr>"
  by (simp add: decorators_summary_def summary_issue_def add_warning_def add_info_def
        no_handlers_issue_def found_issue_def keep_single)

lemma check_decorators_outcome: "\<exists>r. check_outcome (check_decorators py) m r"
proof -
  let ?ns = "walk (ModuleN m)"
  obtain r where r: "sound_out r"
    "\<And>st. for_each ?ns (check_decorators_node py) st = counted py ?ns r st"
    using for_each_check_decorators_node [of ?ns py] by blast
  show ?thesis
  proof (cases r)
    case (Inl e)
    then have "check_outcome (check_decorators py) m (Inl RecursionError)"
      using r by (simp add: check_outcome_Inl check_decorators_def counted_def sound_out_def)
    then show ?thesis ..
  next
    case (Inr fs)
    then have "check_outcome (check_decorators py) m
       (Inr (fs @ [summary_issue (handler_count py ''mcp.tool'' ?ns) (handler_count py ''mcp.resource'' ?ns)
                (handler_count py ''mcp.prompt'' ?ns)]))"
      using r
      by (simp add: check_outcome_Inr check_decorators_def counted_def sound_out_def
            decorators_summary_eq keep_noinfo)
    then show ?thesis ..
  qed
qed

lemma check_decorators_raises:
  assumes "StmtN (FunctionDef nm a body decs ret ln) \<in> set (walk (ModuleN m))"
    and "d \<in> set decs" and "get_decorator_name py (depth_limit py) d = Inl RecursionError"
    and "tree v = Some m"
  shows "check_decorators py v = Inl RecursionError"
proof -
  have dn: "decorator_names py decs = Inl RecursionError"
    using assms(2,3) by (rule decorator_names_raises)
  have "for_each (walk (ModuleN m)) (check_decorators_node py) (0, 0, 0, v) = Inl RecursionError"
  proof (rule for_each_raises [OF assms(1)])
    fix s :: "nat \<times> nat \<times> nat \<times> FastMCPValidator"
    obtain tc rc pc w where "s = (tc, rc, pc, w)" by (cases s) auto
    then show "check_decorators_node py (StmtN (FunctionDef nm a body decs ret ln)) s = Inl RecursionError"
      by (simp add: dn)
  qed (rule check_decorators_node_exn)
  then show ?thesis using assms(4) by (simp add: check_decorators_def)
qed

subsection \<open>The run\<close>


lemma run_all_checks_outcome: "\<exists>r. check_outcome (run_all_checks py) m r"
proof -
  obtain f1 where 1: "check_outcome check_imports m (Inr f1)" using check_imports_outcome by blast
  obtain f2 where 2: "check_outcome check_server_init m (Inr f2)" using check_server_init_outcome by blast
  obtain r3 where 3: "check_outcome (check_decorators py) m r3" using check_decorators_outcome by blast
  obtain r4 where 4: "check_outcome (check_type_hints py) m r4" using check_type_hints_outcome by blast
  obtain r5 where 5: "check_outcome (check_async_patterns py) m r5"
    using check_async_patterns_outcome by blast
  obtain r6 where 6: "check_outcome (check_context_usage py) m r6"
    using check_context_usage_outcome by blast
  obtain f7 where 7: "check_outcome check_best_practices m (Inr f7)"
    using check_best_practices_outcome by blast
  define r where "r =
     (case r3 of Inl e \<Rightarrow> Inl RecursionError | Inr f3 \<Rightarrow>
      (case r4 of Inl e \<Rightarrow> Inl RecursionError | Inr f4 \<Rightarrow>
       (case r5 of Inl e \<Rightarrow> Inl RecursionError | Inr f5 \<Rightarrow>
        (case r6 of Inl e \<Rightarrow> Inl RecursionError | Inr f6 \<Rightarrow>
           Inr (f1 @ f2 @ f3 @ f4 @ f5 @ f6 @ f7)))))"
  have "check_outcome (run_all_checks py) m r"
  proof (cases r3)
    case (Inl e)
    then show ?thesis
      using 1 2 3 by (simp add: r_def check_outcome_Inr check_outcome_Inl run_all_checks_def)
  next
    case f3: (Inr f3)
    show ?thesis
    proof (cases r4)
      case (Inl e)
      then show ?thesis
        using 1 2 3 4 f3 by (simp add: r_def check_outcome_Inr check_outcome_Inl run_all_checks_def)
    next
      case f4: (Inr f4)
      show ?thesis
      proof (cases r5)
        case (Inl e)
        then show ?thesis
          using 1 2 3 4 5 f3 f4
          by (simp add: r_def check_outcome_Inr check_outcome_Inl run_all_checks_def)
      next
        case f5: (Inr f5)
        show ?thesis
        proof (cases r6)
          case (Inl e)
          then show ?thesis
            using 1 2 3 4 5 6 f3 f4 f5
            by (simp add: r_def check_outcome_Inr check_outcome_Inl run_all_checks_def)
        next
          case f6: (Inr f6)
          then show ?thesis
            using 1 2 3 4 5 6 7 f3 f4 f5
            by (simp add: r_def check_outcome_Inr run_all_checks_def)
        qed
      qed
    qed
  qed
  then show ?thesis ..
qed

lemma list_ex_errors: "list_ex (\<lambda>i. severity i = ''error'') (issues v) = (length (errors v) \<noteq> 0)"
  by (simp add: errors_def list_ex_iff filter_empty_conv)

lemma validate_Parsed: "\<exists>r. \<forall>v. validate py v (Parsed m) = run_result m r v"
proof -
  obtain r where r: "check_outcome (run_all_checks py) m r"
    using run_all_checks_outcome by blast
  have "\<forall>v. validate py v (Parsed m) = run_result m r v"
  proof (cases r)
    case (Inl e)
    then show ?thesis
      using r by (simp add: check_outcome_Inl validate_def run_result_def)
  next
    case (Inr fs)
    then show ?thesis
      using r
      by (simp add: check_outcome_Inr validate_def run_result_def Let_def list_ex_errors
            errors_def errors_keep)
  qed
  then show ?thesis ..
qed


lemma validate_verdict:
  "validate py v src = Inr (ok, v') \<Longrightarrow> ok = (length (errors v') = 0)"
  by (cases src)
     (auto simp: validate_def add_error_def errors_def Let_def list_ex_iff filter_empty_conv
        bind_exn_def split: sum.splits)

lemma main_eq:
  "validate py (FastMCPValidator_init file s) src = Inr (ok, v') \<Longrightarrow>
   main py file s src = Inr (if ok then 0 else 1)"
  by (simp add: main_def)

lemma main_raises:
  "validate py (FastMCPValidator_init file s) src = Inl e \<Longrightarrow> main py file s src = Inl e"
  by (simp add: main_def)



subsection \<open>Facts about single nodes\<close>

text \<open>\<open>str_contains\<close> is the contiguous-substring relation of the library.\<close>

lemma str_contains_sublist: "str_contains needle hay = sublist needle hay"
  by (induction hay) (simp_all add: sublist_Cons_right)





lemma not_FunctionDef_nodes:
  assumes "\<not> isinstance_FunctionDef n"
  shows "check_decorators_node py n st = Inr st"
    and "check_type_hints_node py n w = Inr w"
    and "check_async_patterns_node py n w = Inr w"
    and "check_context_usage_node py n w = Inr w"
proof -
  show "check_decorators_node py n st = Inr st"
    using assms by (cases "(py, n, st)" rule: check_decorators_node.cases) simp_all
  show "check_type_hints_node py n w = Inr w"
    using assms by (cases "(py, n, w)" rule: check_type_hints_node.cases) simp_all
  show "check_async_patterns_node py n w = Inr w"
    using assms by (cases "(py, n, w)" rule: check_async_patterns_node.cases) simp_all
  show "check_context_usage_node py n w = Inr w"
    using assms by (cases "(py, n, w)" rule: check_context_usage_node.cases) simp_all
qed



text \<open>A decorator deeper than the budget ends the run in \<^verbatim>\<open>check_decorators\<close>.\<close>

lemma deep_decorator_run:
  assumes "StmtN (FunctionDef nm a body decs ret ln) \<in> set (walk (ModuleN m))"
    and "d \<in> set decs" and "depth_limit py \<le> call_depth d"
  shows "\<exists>v1 v2. check_imports (v\<lparr>tree := Some m\<rparr>) = Inr v1 \<and> check_server_init v1 = Inr v2
            \<and> check_decorators py v2 = Inl RecursionError"
    and "validate py v (Parsed m) = Inl RecursionError"
proof -
  obtain f1 where 1: "check_outcome check_imports m (Inr f1)" using check_imports_outcome by blast
  obtain f2 where 2: "check_outcome check_server_init m (Inr f2)" using check_server_init_outcome by blast
  let ?v0 = "v\<lparr>tree := Some m\<rparr>"
  let ?v1 = "?v0\<lparr>issues := issues ?v0 @ keep (strict ?v0) f1\<rparr>"
  let ?v2 = "?v1\<lparr>issues := issues ?v1 @ keep (strict ?v1) f2\<rparr>"
  have a: "check_imports ?v0 = Inr ?v1" using 1 by (simp add: check_outcome_Inr)
  have b: "check_server_init ?v1 = Inr ?v2" using 2 by (simp add: check_outcome_Inr)
  have g: "get_decorator_name py (depth_limit py) d = Inl RecursionError"
    using assms(3) by (rule get_decorator_name_raises)
  have c: "check_decorators py ?v2 = Inl RecursionError"
    by (rule check_decorators_raises [OF assms(1,2) g]) simp
  show "\<exists>v1 v2. check_imports (v\<lparr>tree := Some m\<rparr>) = Inr v1 \<and> check_server_init v1 = Inr v2
            \<and> check_decorators py v2 = Inl RecursionError"
    using a b c by blast
  show "validate py v (Parsed m) = Inl RecursionError"
    using a b c by (simp add: validate_def run_all_checks_def)
qed

subsection \<open>The example runtime and the example files\<close>

lemmas example_defs =
  scenario_B_def scenario_C_def sync_tool_no_guard_def mcp_tools_module_def two_context_params_def
  untyped_ctx_module_def nested_other_guard_def async_only_module_def
  import_fastmcp_def server_init_def main_guard_def mcp_tool_def fetch_def_def greet_def_def
  report_def_def untyped_ctx_def_def notify_def_def positional_def typed_arg_def untyped_arg_def
  arguments_children_def arg_children_def opt_list_def

lemmas run_defs =
  validate_def main_def run_all_checks_def check_imports_def check_server_init_def
  check_decorators_def check_type_hints_def check_async_patterns_def check_context_usage_def
  check_best_practices_def decorators_summary_def check_tool_function_def
  check_resource_function_def check_prompt_function_def check_param_hint_def
  context_param_step_def has_await_def walk_def add_error_def add_warning_def add_info_def
  FastMCPValidator_init_def py0_def unparse0_def ast_unparse_def list_max_def

lemma call_depth_nested_call: "call_depth (nested_call n) = n"
  by (induction n) simp_all

text \<open>
  The three ways a decorator exhausts the default budget: \<^verbatim>\<open>@f()...()\<close> from 995 calls
  on, inside \<^verbatim>\<open>get_decorator_name\<close>; \<^verbatim>\<open>@mcp.tool()...()\<close> from 988 calls on and a dotted
  name in front of an attribute from 331 identifiers on, inside \<^verbatim>\<open>ast.unparse\<close>.
\<close>

lemma get_decorator_name_nested_call:
  "get_decorator_name py k (nested_call n) = (if n < k then Inr ''f'' else Inl RecursionError)"
  by (induction n arbitrary: k) auto

lemma get_decorator_name_mcp_tool_calls:
  "get_decorator_name py0 k (mcp_tool_calls n) =
     (if n + 8 \<le> k then Inr ''mcp.tool'' else Inl RecursionError)"
  by (induction n arbitrary: k) (auto simp: ast_unparse_def py0_def unparse0_def)

lemma unparse_frames_dotted_chain: "unparse_frames (dotted_chain n) = 7 + 3 * n"
proof (induction n)
  case 0
  show ?case by simp
next
  case (Suc n)
  have "parens_as_atom (dotted_chain n) = 0" by (cases n) simp_all
  then show ?case using Suc by simp
qed

lemma get_decorator_name_dotted_chain:
  "get_decorator_name py0 (depth_limit py0) (Attribute (dotted_chain n) ''tool'') =
     (if n \<le> 329 then Inr (render (dotted_chain n) @ ''.tool'') else Inl RecursionError)"
  by (auto simp: ast_unparse_def py0_def unparse0_def unparse_frames_dotted_chain)

text \<open>Below an expression the walk meets expressions only, which no check looks at.\<close>

lemma iter_child_nodes_expr: "list_all isinstance_expr (iter_child_nodes (ExprN e))"
  by (cases e) (auto simp: list_all_iff)

lemma walk_queue_exprs: "list_all isinstance_expr q \<Longrightarrow> list_all isinstance_expr (walk_queue q)"
proof (induction q rule: walk_queue.induct)
  case 1
  show ?case by simp
next
  case (2 n todo)
  from "2.prems" obtain e where n: "n = ExprN e" by (cases n) simp_all
  have "list_all isinstance_expr (todo @ iter_child_nodes n)"
    using "2.prems" iter_child_nodes_expr [of e] by (simp add: n)
  then show ?case using 2 by simp
qed

lemma fold_check_imports_node_exprs:
  "list_all isinstance_expr xs \<Longrightarrow> fold check_imports_node xs st = st"
proof (induction xs)
  case Nil
  show ?case by simp
next
  case (Cons x xs)
  then obtain e where "x = ExprN e" by (cases x) simp_all
  then show ?case using Cons by (cases st) simp
qed

lemma fold_check_server_init_node_exprs:
  "list_all isinstance_expr xs \<Longrightarrow> fold check_server_init_node xs st = st"
proof (induction xs)
  case Nil
  show ?case by simp
next
  case (Cons x xs)
  then obtain e where "x = ExprN e" by (cases x) simp_all
  then show ?case using Cons by (cases st) simp
qed

lemma fold_below_expr [simp]:
  "fold check_imports_node (walk_queue (iter_child_nodes (ExprN e))) st = st"
  "fold check_server_init_node (walk_queue (iter_child_nodes (ExprN e))) st = st"
  by (simp_all add: fold_check_imports_node_exprs fold_check_server_init_node_exprs
        walk_queue_exprs iter_child_nodes_expr)

lemma deep_with_server_first_checks:
  "check_imports ((FastMCPValidator_init file s)\<lparr>tree := Some (deep_with_server n)\<rparr>)
     = Inr ((FastMCPValidator_init file s)\<lparr>tree := Some (deep_with_server n)\<rparr>)"
  "check_server_init ((FastMCPValidator_init file s)\<lparr>tree := Some (deep_with_server n)\<rparr>)
     = Inr ((FastMCPValidator_init file s)\<lparr>tree := Some (deep_with_server n)\<rparr>)"
  by (simp_all add: run_defs example_defs deep_with_server_def deep_def_def)

section \<open>The properties\<close>

text \<open>
  C1. The claim is that for every input file and strict flag the verdict of the run,
  and hence the exit code 0 or 1, says whether the run produced no finding of severity
  error. That holds of every run that returns; a run that an exception ends has no
  verdict, and the process exits with 1 whatever the findings were. For every input
  file and strict flag: either \<^verbatim>\<open>validate\<close> returns, its verdict is success exactly when
  the findings hold no error (warnings and informational findings do not enter it),
  and \<^verbatim>\<open>main\<close> exits with 0 on success and 1 otherwise; or an exception leaves
  \<^verbatim>\<open>validate\<close>, the same exception leaves \<^verbatim>\<open>main\<close>, and the exit status is 1.
\<close>

theorem verdict_law:
  "(\<exists>ok v'. validate py (FastMCPValidator_init file s) src = Inr (ok, v')
       \<and> ok = (length (errors v') = 0)
       \<and> main py file s src = Inr (if length (errors v') = 0 then 0 else 1)
       \<and> exit_status (main py file s src) = (if length (errors v') = 0 then 0 else 1))
   \<or> (\<exists>e. validate py (FastMCPValidator_init file s) src = Inl e
       \<and> main py file s src = Inl e
       \<and> exit_status (main py file s src) = 1)"
proof (cases "validate py (FastMCPValidator_init file s) src")
  case (Inl e)
  then show ?thesis by (simp add: main_def exit_status_def)
next
  case (Inr p)
  obtain ok v' where p: "p = (ok, v')" by (cases p) auto
  have "ok = (length (errors v') = 0)"
    using Inr unfolding p by (rule validate_verdict)
  then show ?thesis
    using Inr by (auto simp: p main_def exit_status_def)
qed

text \<open>
  The law at two runs that return findings: \<^verbatim>\<open>def report(ctx) -> str\<close> under
  \<^verbatim>\<open>@mcp.tool()\<close> gives one error between two warnings, verdict failure and exit code 1;
  \<^verbatim>\<open>def report(ctx: Context, context) -> str\<close> gives two warnings and no error, verdict
  success and exit code 0.
\<close>

theorem verdict_law_witness:
  "validate py0 (FastMCPValidator_init ''server.py'' False) (Parsed untyped_ctx_module) =
     Inr (False,
          \<lparr>filepath = ''server.py'', strict = False,
           issues =
             [\<lparr>severity = ''warning'', line = Some 5,
               message = ''Parameter 'ctx' in 'report' missing type hint'',
               suggestion = Some ''Add type hint: ctx: str''\<rparr>,
              context_untyped_issue ''report'' 5,
              context_not_async_issue ''report'' 5],
           tree = Some untyped_ctx_module\<rparr>)
   \<and> main py0 ''server.py'' False (Parsed untyped_ctx_module) = Inr 1
   \<and> exit_status (main py0 ''server.py'' False (Parsed untyped_ctx_module)) = 1
   \<and> validate py0 (FastMCPValidator_init ''server.py'' False) (Parsed two_context_params) =
     Inr (True,
          \<lparr>filepath = ''server.py'', strict = False,
           issues =
             [\<lparr>severity = ''warning'', line = Some 5,
               message = ''Parameter 'context' in 'report' missing type hint'',
               suggestion = Some ''Add type hint: context: str''\<rparr>,
              context_not_async_issue ''report'' 5],
           tree = Some two_context_params\<rparr>)
   \<and> main py0 ''server.py'' False (Parsed two_context_params) = Inr 0
   \<and> exit_status (main py0 ''server.py'' False (Parsed two_context_params)) = 0"
proof -
  let ?v1 = "\<lparr>filepath = ''server.py'', strict = False,
           issues =
             [\<lparr>severity = ''warning'', line = Some 5,
               message = ''Parameter 'ctx' in 'report' missing type hint'',
               suggestion = Some ''Add type hint: ctx: str''\<rparr>,
              context_untyped_issue ''report'' 5,
              context_not_async_issue ''report'' 5],
           tree = Some untyped_ctx_module\<rparr>"
  let ?v2 = "\<lparr>filepath = ''server.py'', strict = False,
           issues =
             [\<lparr>severity = ''warning'', line = Some 5,
               message = ''Parameter 'context' in 'report' missing type hint'',
               suggestion = Some ''Add type hint: context: str''\<rparr>,
              context_not_async_issue ''report'' 5],
           tree = Some two_context_params\<rparr>"
  have r1: "validate py0 (FastMCPValidator_init ''server.py'' False) (Parsed untyped_ctx_module)
      = Inr (False, ?v1)"
    by (simp add: run_defs example_defs context_untyped_issue_def context_not_async_issue_def)
  have r2: "validate py0 (FastMCPValidator_init ''server.py'' False) (Parsed two_context_params)
      = Inr (True, ?v2)"
    by (simp add: run_defs example_defs context_not_async_issue_def)
  have e1: "length (errors ?v1) = 1"
    by (simp add: errors_def context_untyped_issue_def context_not_async_issue_def)
  have e2: "length (errors ?v2) = 0"
    by (simp add: errors_def context_not_async_issue_def)
  have m1: "main py0 ''server.py'' False (Parsed untyped_ctx_module) = Inr 1
      \<and> exit_status (main py0 ''server.py'' False (Parsed untyped_ctx_module)) = 1"
    using verdict_law [of py0 "''server.py''" False "Parsed untyped_ctx_module"] r1 e1
    by auto
  have m2: "main py0 ''server.py'' False (Parsed two_context_params) = Inr 0
      \<and> exit_status (main py0 ''server.py'' False (Parsed two_context_params)) = 0"
    using verdict_law [of py0 "''server.py''" False "Parsed two_context_params"] r2 e2
    by auto
  show ?thesis
    using r1 r2 m1 m2 by (simp add: exit_status_def)
qed

text \<open>
  Against the claim as stated: a file with the import, the server and a function under
  a decorator of 995 nested calls, \<^verbatim>\<open>@f()()...()\<close>. The first two checks add no finding,
  \<^verbatim>\<open>check_decorators\<close> raises, and the process exits with 1 although no finding of
  severity error was produced.
\<close>

theorem exit_one_without_error_finding:
  "check_imports ((FastMCPValidator_init ''server.py'' False)\<lparr>tree := Some (deep_with_server 995)\<rparr>)
     = Inr ((FastMCPValidator_init ''server.py'' False)\<lparr>tree := Some (deep_with_server 995)\<rparr>)
   \<and> check_server_init ((FastMCPValidator_init ''server.py'' False)\<lparr>tree := Some (deep_with_server 995)\<rparr>)
     = Inr ((FastMCPValidator_init ''server.py'' False)\<lparr>tree := Some (deep_with_server 995)\<rparr>)
   \<and> errors ((FastMCPValidator_init ''server.py'' False)\<lparr>tree := Some (deep_with_server 995)\<rparr>) = []
   \<and> check_decorators py0
        ((FastMCPValidator_init ''server.py'' False)\<lparr>tree := Some (deep_with_server 995)\<rparr>)
     = Inl RecursionError
   \<and> validate py0 (FastMCPValidator_init ''server.py'' False) (Parsed (deep_with_server 995))
     = Inl RecursionError
   \<and> main py0 ''server.py'' False (Parsed (deep_with_server 995)) = Inl RecursionError
   \<and> exit_status (main py0 ''server.py'' False (Parsed (deep_with_server 995))) = 1"
proof -
  let ?v = "(FastMCPValidator_init ''server.py'' False)\<lparr>tree := Some (deep_with_server 995)\<rparr>"
  have n: "StmtN (FunctionDef ''g'' (positional []) [Pass] [nested_call 995] None 4)
      \<in> set (walk (ModuleN (deep_with_server 995)))"
    by (simp add: walk_def deep_with_server_def deep_def_def import_fastmcp_def server_init_def)
  have g: "get_decorator_name py0 (depth_limit py0) (nested_call 995) = Inl RecursionError"
    by (simp add: get_decorator_name_nested_call py0_def)
  have d: "check_decorators py0 ?v = Inl RecursionError"
    by (rule check_decorators_raises [OF n _ g]) simp_all
  have e: "errors ?v = []" by (simp add: errors_def FastMCPValidator_init_def)
  have r: "validate py0 (FastMCPValidator_init ''server.py'' False) (Parsed (deep_with_server 995))
      = Inl RecursionError"
    using d by (simp add: validate_def run_all_checks_def deep_with_server_first_checks)
  show ?thesis
    using d e r by (simp add: deep_with_server_first_checks main_def exit_status_def)
qed


text \<open>
  C3. Scenario B (import, named server, one asynchronous tool with annotated
  parameter, docstring and return annotation, guard, no stray await) is claimed to give
  zero findings and exit code 0. The validator exits with 0 but reports one warning,
  \<^verbatim>\<open>No tools, resources, or prompts defined\<close>, in both modes: line 160 matches
  \<^verbatim>\<open>ast.FunctionDef\<close> only, and an \<^verbatim>\<open>async def\<close> is an \<^verbatim>\<open>ast.AsyncFunctionDef\<close>.
\<close>

theorem scenario_B_run:
  "validate py0 (FastMCPValidator_init ''server.py'' False) (Parsed scenario_B) =
     Inr (True, \<lparr>filepath = ''server.py'', strict = False, issues = [no_handlers_issue],
                 tree = Some scenario_B\<rparr>)
   \<and> validate py0 (FastMCPValidator_init ''server.py'' True) (Parsed scenario_B) =
     Inr (True, \<lparr>filepath = ''server.py'', strict = True, issues = [no_handlers_issue],
                 tree = Some scenario_B\<rparr>)
   \<and> main py0 ''server.py'' False (Parsed scenario_B) = Inr 0"
  by (simp add: run_defs example_defs no_handlers_issue_def)










text \<open>
  C7. For every input file, the two runs end alike: either the same exception ends
  both, and neither produces a list of findings, or both return, with the same verdict,
  and the findings of the run without the strict flag are the findings of the strict
  run, in order, with the informational ones removed; without the strict flag no
  informational finding is stored, and \<^verbatim>\<open>add_info\<close> leaves the validator as it is.
\<close>

theorem strict_mode_monotone:
  "(\<exists>e. validate py (FastMCPValidator_init file True) src = Inl e
        \<and> validate py (FastMCPValidator_init file False) src = Inl e)
   \<or> (\<exists>ok v1 v2.
           validate py (FastMCPValidator_init file True) src = Inr (ok, v1)
         \<and> validate py (FastMCPValidator_init file False) src = Inr (ok, v2)
         \<and> issues v2 = filter (\<lambda>i. severity i \<noteq> ''info'') (issues v1)
         \<and> infos v2 = []
         \<and> add_info v2 ln msg sugg = v2)"
proof (cases src)
  case (Parsed m)
  obtain r where run: "\<And>v. validate py v (Parsed m) = run_result m r v"
    using validate_Parsed [of py m] by blast
  show ?thesis
  proof (cases r)
    case (Inl e)
    then show ?thesis
      unfolding Parsed by (simp add: run run_result_def)
  next
    case (Inr fs)
    then show ?thesis
      unfolding Parsed
      by (simp add: run run_result_def FastMCPValidator_init_def keep_False infos_def
            add_info_def)
  qed
qed (auto simp: validate_def add_error_def add_info_def infos_def FastMCPValidator_init_def)

text \<open>
  At the file with one synchronous tool and no guard: two informational findings in
  strict mode, none otherwise. At the file with a decorator of 995 nested calls: the
  same exception in both modes.
\<close>

theorem strict_mode_monotone_witness:
  "validate py0 (FastMCPValidator_init ''server.py'' True) (Parsed sync_tool_no_guard) =
       Inr (True, \<lparr>filepath = ''server.py'', strict = True,
                    issues = [found_issue 1 0 0, missing_guard_issue],
                    tree = Some sync_tool_no_guard\<rparr>)
   \<and> (\<exists>v2. validate py0 (FastMCPValidator_init ''server.py'' False) (Parsed sync_tool_no_guard)
             = Inr (True, v2)
          \<and> issues v2 = [])
   \<and> validate py0 (FastMCPValidator_init ''server.py'' True) (Parsed (deep_with_server 995))
       = Inl RecursionError
   \<and> validate py0 (FastMCPValidator_init ''server.py'' False) (Parsed (deep_with_server 995))
       = Inl RecursionError"
proof -
  have t: "validate py0 (FastMCPValidator_init ''server.py'' True) (Parsed sync_tool_no_guard) =
       Inr (True, \<lparr>filepath = ''server.py'', strict = True,
                    issues = [found_issue 1 0 0, missing_guard_issue],
                    tree = Some sync_tool_no_guard\<rparr>)"
    by (simp add: run_defs example_defs found_issue_def missing_guard_issue_def str_nat.simps
          digit_char_def)
  have f: "\<exists>v2. validate py0 (FastMCPValidator_init ''server.py'' False) (Parsed sync_tool_no_guard)
             = Inr (True, v2) \<and> issues v2 = []"
    using strict_mode_monotone [of py0 "''server.py''" "Parsed sync_tool_no_guard" None "''note''" None]
    by (auto simp: t found_issue_def missing_guard_issue_def)
  have n: "StmtN (FunctionDef ''g'' (positional []) [Pass] [nested_call 995] None 4)
      \<in> set (walk (ModuleN (deep_with_server 995)))"
    by (simp add: walk_def deep_with_server_def deep_def_def import_fastmcp_def server_init_def)
  have dl: "depth_limit py0 \<le> call_depth (nested_call 995)"
    by (simp add: call_depth_nested_call py0_def)
  have d: "validate py0 (FastMCPValidator_init ''server.py'' True)
      (Parsed (deep_with_server 995)) = Inl RecursionError"
    by (rule deep_decorator_run(2) [OF n _ dl]) simp
  have e: "validate py0 (FastMCPValidator_init ''server.py'' False)
      (Parsed (deep_with_server 995)) = Inl RecursionError"
    using strict_mode_monotone [of py0 "''server.py''" "Parsed (deep_with_server 995)" None "''note''" None]
    by (auto simp: d)
  show ?thesis
    using t f d e by blast
qed




text \<open>
  C9. The claim is that the guard check emits its informational finding exactly when
  no top-level conditional compares \<^verbatim>\<open>__name__\<close> to the literal \<^verbatim>\<open>"__main__"\<close>, and that a
  nested conditional or one comparing to another value does not count. Lines 316-321
  walk the whole tree and look at the left operand only. Amended: the check emits the
  finding, in strict mode only, exactly when no \<^verbatim>\<open>If\<close> node anywhere in the tree has a
  test that is a comparison whose left operand is the bare name \<^verbatim>\<open>__name__\<close>; the
  operator and the value compared with are not examined.
\<close>

theorem entry_point_guard_rule:
  assumes "tree v = Some m"
  shows "check_best_practices v =
           Inr (if strict v \<and> \<not> list_ex name_compare_if (walk (ModuleN m))
                then v\<lparr>issues := issues v @ [missing_guard_issue]\<rparr>
                else v)"
  using assms
  by (simp add: check_best_practices_eq keep_single missing_guard_issue_def)

text \<open>
  At a file without any conditional the finding is emitted; at Scenario C, which has the
  guard, it is not.
\<close>

theorem entry_point_guard_rule_witness:
  "tree ((FastMCPValidator_init ''server.py'' True)\<lparr>tree := Some sync_tool_no_guard\<rparr>)
     = Some sync_tool_no_guard
   \<and> \<not> list_ex name_compare_if (walk (ModuleN sync_tool_no_guard))
   \<and> check_best_practices ((FastMCPValidator_init ''server.py'' True)\<lparr>tree := Some sync_tool_no_guard\<rparr>)
     = Inr \<lparr>filepath = ''server.py'', strict = True, issues = [missing_guard_issue],
            tree = Some sync_tool_no_guard\<rparr>
   \<and> list_ex name_compare_if (walk (ModuleN scenario_C))
   \<and> check_best_practices ((FastMCPValidator_init ''server.py'' True)\<lparr>tree := Some scenario_C\<rparr>)
     = Inr ((FastMCPValidator_init ''server.py'' True)\<lparr>tree := Some scenario_C\<rparr>)"
proof -
  let ?v = "(FastMCPValidator_init ''server.py'' True)\<lparr>tree := Some sync_tool_no_guard\<rparr>"
  let ?u = "(FastMCPValidator_init ''server.py'' True)\<lparr>tree := Some scenario_C\<rparr>"
  have 1: "tree ?v = Some sync_tool_no_guard" by simp
  have 2: "tree ?u = Some scenario_C" by simp
  have g1: "\<not> list_ex name_compare_if (walk (ModuleN sync_tool_no_guard))"
    by (simp add: run_defs example_defs)
  have g2: "list_ex name_compare_if (walk (ModuleN scenario_C))"
    by (simp add: run_defs example_defs)
  show ?thesis
    using 1 g1 g2 entry_point_guard_rule [OF 1] entry_point_guard_rule [OF 2]
    by (simp add: FastMCPValidator_init_def)
qed

text \<open>
  Against the claim as stated: the file has no top-level guard in the specification's
  sense, only \<^verbatim>\<open>if __name__ != "plugin":\<close> inside a function, and the strict run emits no
  finding about a missing guard.
\<close>

theorem nested_other_guard_accepted:
  "\<not> spec_entry_point_guard nested_other_guard
   \<and> validate py0 (FastMCPValidator_init ''server.py'' True) (Parsed nested_other_guard) =
       Inr (True, \<lparr>filepath = ''server.py'', strict = True, issues = [found_issue 1 0 0],
                    tree = Some nested_other_guard\<rparr>)
   \<and> check_best_practices ((FastMCPValidator_init ''server.py'' True)\<lparr>tree := Some nested_other_guard\<rparr>)
     = Inr ((FastMCPValidator_init ''server.py'' True)\<lparr>tree := Some nested_other_guard\<rparr>)"
  by (simp add: spec_entry_point_guard_def run_defs example_defs found_issue_def
        str_nat.simps digit_char_def)

text \<open>
  C10. A function defined with \<^verbatim>\<open>async def\<close> is an \<^verbatim>\<open>AsyncFunctionDef\<close> node, and no
  check inspects it: on such a node the body of the inventory loop leaves the three
  counts and the findings as they are (so neither the docstring, nor the resource-URI,
  nor the prompt-return-type helper runs), and the bodies of the type-hint, async/await
  and context-parameter loops leave the validator as it is and raise nothing, whatever
  the decorators, parameters and body of the function. Consequently, on a tree whose
  function definitions are all asynchronous, the inventory reports that no tools,
  resources or prompts are defined, and the other three checks report nothing.
\<close>

theorem async_defs_not_inspected:
  assumes "tree v = Some m" and "\<not> list_ex isinstance_FunctionDef (walk (ModuleN m))"
  shows "check_decorators_node py (StmtN (AsyncFunctionDef nm a body decs ret ln)) (tc, rc, pc, w)
           = Inr (tc, rc, pc, w)
         \<and> check_type_hints_node py (StmtN (AsyncFunctionDef nm a body decs ret ln)) w = Inr w
         \<and> check_async_patterns_node py (StmtN (AsyncFunctionDef nm a body decs ret ln)) w = Inr w
         \<and> check_context_usage_node py (StmtN (AsyncFunctionDef nm a body decs ret ln)) w = Inr w
         \<and> check_decorators py v = Inr (v\<lparr>issues := issues v @ [no_handlers_issue]\<rparr>)
         \<and> check_type_hints py v = Inr v
         \<and> check_async_patterns py v = Inr v
         \<and> check_context_usage py v = Inr v"
proof -
  have none: "\<And>n. n \<in> set (walk (ModuleN m)) \<Longrightarrow> \<not> isinstance_FunctionDef n"
    using assms(2) by (simp add: list_ex_iff)
  have d: "for_each (walk (ModuleN m)) (check_decorators_node py) (0, 0, 0, v) = Inr (0, 0, 0, v)"
    by (rule for_each_same) (simp add: none not_FunctionDef_nodes)
  have t: "for_each (walk (ModuleN m)) (check_type_hints_node py) v = Inr v"
    by (rule for_each_same) (simp add: none not_FunctionDef_nodes)
  have a: "for_each (walk (ModuleN m)) (check_async_patterns_node py) v = Inr v"
    by (rule for_each_same) (simp add: none not_FunctionDef_nodes)
  have c: "for_each (walk (ModuleN m)) (check_context_usage_node py) v = Inr v"
    by (rule for_each_same) (simp add: none not_FunctionDef_nodes)
  show ?thesis
    using assms(1) d t a c
    by (simp add: check_decorators_def check_type_hints_def check_async_patterns_def
          check_context_usage_def decorators_summary_def add_warning_def no_handlers_issue_def)
qed

text \<open>
  At \<^verbatim>\<open>@mcp.tool()\<close> / \<^verbatim>\<open>async def notify(ctx):\<close> / \<^verbatim>\<open>await ctx.info("x")\<close>: the only finding
  of the strict run is the warning that nothing is defined.
\<close>

theorem async_defs_not_inspected_witness:
  "tree ((FastMCPValidator_init ''server.py'' True)\<lparr>tree := Some async_only_module\<rparr>)
     = Some async_only_module
   \<and> \<not> list_ex isinstance_FunctionDef (walk (ModuleN async_only_module))
   \<and> StmtN notify_def \<in> set (walk (ModuleN async_only_module))
   \<and> check_decorators py0 ((FastMCPValidator_init ''server.py'' True)\<lparr>tree := Some async_only_module\<rparr>)
     = Inr \<lparr>filepath = ''server.py'', strict = True, issues = [no_handlers_issue],
            tree = Some async_only_module\<rparr>
   \<and> check_context_usage py0 ((FastMCPValidator_init ''server.py'' True)\<lparr>tree := Some async_only_module\<rparr>)
     = Inr ((FastMCPValidator_init ''server.py'' True)\<lparr>tree := Some async_only_module\<rparr>)
   \<and> validate py0 (FastMCPValidator_init ''server.py'' True) (Parsed async_only_module) =
       Inr (True, \<lparr>filepath = ''server.py'', strict = True, issues = [no_handlers_issue],
                    tree = Some async_only_module\<rparr>)"
proof -
  let ?v = "(FastMCPValidator_init ''server.py'' True)\<lparr>tree := Some async_only_module\<rparr>"
  have 1: "tree ?v = Some async_only_module" by simp
  have 2: "\<not> list_ex isinstance_FunctionDef (walk (ModuleN async_only_module))"
    by (simp add: run_defs example_defs)
  have 3: "StmtN notify_def \<in> set (walk (ModuleN async_only_module))"
    by (simp add: run_defs example_defs)
  have r: "validate py0 (FastMCPValidator_init ''server.py'' True) (Parsed async_only_module) =
       Inr (True, \<lparr>filepath = ''server.py'', strict = True, issues = [no_handlers_issue],
                    tree = Some async_only_module\<rparr>)"
    by (simp add: run_defs example_defs no_handlers_issue_def)
  show ?thesis
    using 1 2 3 r
      async_defs_not_inspected [OF 1 2, of py0 "''notify''" "positional [untyped_arg ''ctx'']"
        "[]" "[mcp_tool]" None 5 0 0 0 ?v]
    by (simp add: FastMCPValidator_init_def)
qed

end
